theory Spec2Isabelle
  imports Main "HOL-Library.Multiset"
begin

section \<open>Strings as the code uses them\<close>

text \<open>
  A JavaScript string is modelled as a \<open>string\<close> (a list of 8-bit characters), that is, a
  string all of whose code units are below 256. This is the domain on which \<open>btoa\<close> is
  defined, and every string the validators accept lies in it. \<open>length\<close> is then the
  \<open>.length\<close> of the source.
\<close>

definition isWhitespace :: "char \<Rightarrow> bool" where
  \<comment> \<open>the class \<open>\s\<close> (and what \<open>trim\<close> removes), restricted to code units below 256:
      TAB, LF, VT, FF, CR, SPACE and NBSP\<close>
  "isWhitespace c = ((of_char c :: nat) \<in> {9, 10, 11, 12, 13, 32, 160})"

definition isAlnum :: "char \<Rightarrow> bool" where
  \<comment> \<open>the class \<open>[a-zA-Z0-9]\<close>\<close>
  "isAlnum c =
     (let n = (of_char c :: nat)
      in (97 \<le> n \<and> n \<le> 122) \<or> (65 \<le> n \<and> n \<le> 90) \<or> (48 \<le> n \<and> n \<le> 57))"

definition stripWhitespace :: "string \<Rightarrow> string" where
  \<comment> \<open>\<open>s.replace(/\s/g, '')\<close>\<close>
  "stripWhitespace s = filter (\<lambda>c. \<not> isWhitespace c) s"

definition trim :: "string \<Rightarrow> string" where
  \<comment> \<open>\<open>s.trim()\<close>\<close>
  "trim s = rev (dropWhile isWhitespace (rev (dropWhile isWhitespace s)))"

definition lowerChar :: "char \<Rightarrow> char" where
  \<comment> \<open>\<open>toLowerCase\<close> on one code unit below 256: A-Z, and the Latin-1 capitals but for
      the multiplication sign\<close>
  "lowerChar c =
     (let n = (of_char c :: nat)
      in if (65 \<le> n \<and> n \<le> 90) \<or> (192 \<le> n \<and> n \<le> 222 \<and> n \<noteq> 215)
         then char_of (n + 32) else c)"

definition toLowerCase :: "string \<Rightarrow> string" where
  "toLowerCase s = map lowerChar s"

fun startsWith :: "string \<Rightarrow> string \<Rightarrow> bool" where
  \<comment> \<open>\<open>s.startsWith(p)\<close>, the prefix first\<close>
  "startsWith [] s = True"
| "startsWith (p # ps) [] = False"
| "startsWith (p # ps) (c # cs) = (p = c \<and> startsWith ps cs)"

definition endsWith :: "string \<Rightarrow> string \<Rightarrow> bool" where
  \<comment> \<open>\<open>s.endsWith(p)\<close>, the suffix first\<close>
  "endsWith p s = startsWith (rev p) (rev s)"

fun includesStr :: "string \<Rightarrow> string \<Rightarrow> bool" where
  \<comment> \<open>\<open>s.includes(p)\<close>, the searched text first\<close>
  "includesStr p [] = (p = [])"
| "includesStr p (c # cs) = (startsWith p (c # cs) \<or> includesStr p cs)"

fun decimal :: "nat \<Rightarrow> string" where
  \<comment> \<open>a non-negative integer as JavaScript prints it\<close>
  "decimal n =
     (if n < 10 then [''0123456789'' ! n]
      else decimal (n div 10) @ [''0123456789'' ! (n mod 10)])"

declare decimal.simps [simp del]

definition numberToString :: "int \<Rightarrow> string" where
  "numberToString i = (if i < 0 then CHR ''-'' # decimal (nat (- i)) else decimal (nat i))"

subsection \<open>Regular expressions\<close>

text \<open>
  The three patterns of the source are all anchored (\<open>^...$\<close>) and use only character
  classes, literals, alternation and \<open>+\<close>. They are written as values of \<open>rx\<close> and run by
  a derivative matcher, so that \<open>rx_test r s\<close> is \<open>r.test(s)\<close> for an anchored \<open>r\<close>.
\<close>

datatype rx =
    Never
  | Empty
  | Cls "char \<Rightarrow> bool"
  | Cat rx rx
  | Alt rx rx
  | Star rx

fun nullable :: "rx \<Rightarrow> bool" where
  "nullable Never = False"
| "nullable Empty = True"
| "nullable (Cls P) = False"
| "nullable (Cat r s) = (nullable r \<and> nullable s)"
| "nullable (Alt r s) = (nullable r \<or> nullable s)"
| "nullable (Star r) = True"

fun deriv :: "char \<Rightarrow> rx \<Rightarrow> rx" where
  "deriv c Never = Never"
| "deriv c Empty = Never"
| "deriv c (Cls P) = (if P c then Empty else Never)"
| "deriv c (Cat r s) =
     (if nullable r then Alt (Cat (deriv c r) s) (deriv c s) else Cat (deriv c r) s)"
| "deriv c (Alt r s) = Alt (deriv c r) (deriv c s)"
| "deriv c (Star r) = Cat (deriv c r) (Star r)"

fun derivs :: "string \<Rightarrow> rx \<Rightarrow> rx" where
  "derivs [] r = r"
| "derivs (c # cs) r = derivs cs (deriv c r)"

definition rx_test :: "rx \<Rightarrow> string \<Rightarrow> bool" where
  "rx_test r s = nullable (derivs s r)"

definition Lit :: "char \<Rightarrow> rx" where
  "Lit c = Cls (\<lambda>x. x = c)"

definition Str :: "string \<Rightarrow> rx" where
  "Str s = foldr (\<lambda>c r. Cat (Lit c) r) s Empty"

definition Plus :: "rx \<Rightarrow> rx" where
  "Plus r = Cat r (Star r)"

definition localChar :: "char \<Rightarrow> bool" where
  \<comment> \<open>the class \<open>[a-zA-Z0-9._%+-]\<close>\<close>
  "localChar c = (isAlnum c \<or> c \<in> set ''._%+-'')"

definition domainChar :: "char \<Rightarrow> bool" where
  \<comment> \<open>the class \<open>[a-zA-Z0-9.-]\<close>\<close>
  "domainChar c = (isAlnum c \<or> c \<in> set ''.-'')"

definition emailRegex :: rx where
  \<comment> \<open>\<open>/^[a-zA-Z0-9._%+-]+@(gmail\.com|[a-zA-Z0-9.-]+\.edu\.in)$/\<close>\<close>
  "emailRegex =
     Cat (Plus (Cls localChar))
       (Cat (Lit CHR ''@'')
         (Alt (Str ''gmail.com'') (Cat (Plus (Cls domainChar)) (Str ''.edu.in''))))"

definition alnumRegex :: rx where
  \<comment> \<open>\<open>/^[a-zA-Z0-9]+$/\<close>\<close>
  "alnumRegex = Plus (Cls isAlnum)"

section \<open>Credential validation service (validate-gmail-credentials/route.ts)\<close>

subsection \<open>Rate limiting\<close>

record RateLimitEntry =
  rl_count :: nat
  rl_resetTime :: int

type_synonym rateLimitStore = "string \<rightharpoonup> RateLimitEntry"

record RateLimitCheck =
  allowed :: bool
  resetTime :: "int option"

definition RATE_LIMIT_WINDOW :: int where
  "RATE_LIMIT_WINDOW = 15 * 60 * 1000"

definition RATE_LIMIT_MAX_ATTEMPTS :: nat where
  "RATE_LIMIT_MAX_ATTEMPTS = 5"

definition checkRateLimit ::
  "int \<Rightarrow> string \<Rightarrow> rateLimitStore \<Rightarrow> RateLimitCheck \<times> rateLimitStore" where
  \<comment> \<open>\<open>now\<close> is the reading of \<open>Date.now()\<close>; the module-level map is passed and returned\<close>
  "checkRateLimit now ip store =
     (case store ip of
        None \<Rightarrow>
          (\<lparr>allowed = True, resetTime = None\<rparr>,
           store(ip \<mapsto> \<lparr>rl_count = 1, rl_resetTime = now + RATE_LIMIT_WINDOW\<rparr>))
      | Some entry \<Rightarrow>
          if now > rl_resetTime entry then
            (\<lparr>allowed = True, resetTime = None\<rparr>,
             store(ip \<mapsto> \<lparr>rl_count = 1, rl_resetTime = now + RATE_LIMIT_WINDOW\<rparr>))
          else if rl_count entry \<ge> RATE_LIMIT_MAX_ATTEMPTS then
            (\<lparr>allowed = False, resetTime = Some (rl_resetTime entry)\<rparr>, store)
          else
            (\<lparr>allowed = True, resetTime = None\<rparr>,
             store(ip \<mapsto> entry\<lparr>rl_count := rl_count entry + 1\<rparr>)))"

fun attempts ::
  "int list \<Rightarrow> string \<Rightarrow> rateLimitStore \<Rightarrow> RateLimitCheck list \<times> rateLimitStore" where
  \<comment> \<open>successive calls of \<open>checkRateLimit\<close> for one client, at the given clock readings\<close>
  "attempts [] ip store = ([], store)"
| "attempts (t # ts) ip store =
     (let (r, store') = checkRateLimit t ip store;
          (rs, store'') = attempts ts ip store'
      in (r # rs, store''))"

subsection \<open>Format validation\<close>

record Validation =
  valid :: bool
  v_error :: "string option"

definition validateInput :: "string option \<Rightarrow> string option \<Rightarrow> Validation" where
  \<comment> \<open>an argument is \<open>None\<close> when the JSON body gives no string there\<close>
  "validateInput email appPassword =
     (case email of
        None \<Rightarrow> \<lparr>valid = False, v_error = Some ''Email is required''\<rparr>
      | Some e \<Rightarrow>
          if e = [] then \<lparr>valid = False, v_error = Some ''Email is required''\<rparr>
          else if \<not> rx_test emailRegex (trim e) then
            \<lparr>valid = False,
             v_error = Some ''Please enter a valid Gmail address or educational email (.edu.in)''\<rparr>
          else
            (case appPassword of
               None \<Rightarrow> \<lparr>valid = False, v_error = Some ''App password is required''\<rparr>
             | Some p \<Rightarrow>
                 if p = [] then \<lparr>valid = False, v_error = Some ''App password is required''\<rparr>
                 else
                   let cleanPassword = stripWhitespace p in
                   if length cleanPassword \<noteq> 16 then
                     \<lparr>valid = False,
                      v_error = Some (''App password must be 16 characters (got ''
                                      @ decimal (length cleanPassword) @ '')'')\<rparr>
                   else if \<not> rx_test alnumRegex cleanPassword then
                     \<lparr>valid = False, v_error = Some ''App password contains invalid characters''\<rparr>
                   else \<lparr>valid = True, v_error = None\<rparr>))"

subsection \<open>The endpoint\<close>

datatype json_body =
    InvalidJson \<comment> \<open>\<open>request.json()\<close> rejects\<close>
  | JsonNull \<comment> \<open>the body is \<open>null\<close>: destructuring it throws\<close>
  | Body "string option" "string option"
      \<comment> \<open>\<open>email\<close> and \<open>appPassword\<close>, each \<open>None\<close> when it is not a string\<close>

record ValidationRequest =
  url :: string
  x_forwarded_for :: "string option"
  x_real_ip :: "string option"
  body :: json_body

record ValidationEnv =
  production :: bool \<comment> \<open>\<open>process.env.NODE_ENV === 'production'\<close>\<close>
  smtp_verify :: "string \<Rightarrow> string \<Rightarrow> bool"
    \<comment> \<open>whether \<open>transporter.verify()\<close> resolves for this user and password at
        smtp.gmail.com:587 (the mail server is not part of the repository)\<close>

record ValidationResponse =
  status :: nat
  success :: bool
  error :: "string option"
  message :: "string option"
  resp_resetTime :: "int option" \<comment> \<open>the instant whose ISO form the body carries\<close>

definition getClientIP :: "ValidationRequest \<Rightarrow> string" where
  "getClientIP request =
     (case x_forwarded_for request of
        Some forwarded \<Rightarrow>
          if forwarded \<noteq> [] then trim (takeWhile (\<lambda>c. c \<noteq> CHR '','') forwarded)
          else (case x_real_ip request of
                  Some realIP \<Rightarrow> if realIP \<noteq> [] then trim realIP else ''unknown''
                | None \<Rightarrow> ''unknown'')
      | None \<Rightarrow>
          (case x_real_ip request of
             Some realIP \<Rightarrow> if realIP \<noteq> [] then trim realIP else ''unknown''
           | None \<Rightarrow> ''unknown''))"

definition testEmailConnection :: "ValidationEnv \<Rightarrow> string \<Rightarrow> string \<Rightarrow> bool" where
  \<comment> \<open>\<open>try { await transporter.verify(); return true } catch { return false }\<close>\<close>
  "testEmailConnection env email appPassword = smtp_verify env email appPassword"

definition institutionalHint :: string where
  "institutionalHint = ''Unable to connect to your institutional email server. Please verify your email, password and SMTP access.''"

definition POST_validate ::
  "ValidationEnv \<Rightarrow> int \<Rightarrow> ValidationRequest \<Rightarrow> rateLimitStore
     \<Rightarrow> ValidationResponse \<times> rateLimitStore" where
  "POST_validate env now request store =
     (if production env \<and> \<not> startsWith ''https://'' (url request) then
        (\<lparr>status = 400, success = False,
          error = Some ''HTTPS required for credential validation'',
          message = None, resp_resetTime = None\<rparr>, store)
      else
        let clientIP = getClientIP request;
            (rateLimitCheck, store') = checkRateLimit now clientIP store
        in if \<not> allowed rateLimitCheck then
             (\<lparr>status = 429, success = False,
               error = Some ''Too many validation attempts. Please try again later.'',
               message = None,
               resp_resetTime =
                 Some (case resetTime rateLimitCheck of
                         Some t \<Rightarrow> if t \<noteq> 0 then t else now
                       | None \<Rightarrow> now)\<rparr>, store')
           else
             (case body request of
                InvalidJson \<Rightarrow>
                  (\<lparr>status = 400, success = False,
                    error = Some ''Invalid JSON in request body'',
                    message = None, resp_resetTime = None\<rparr>, store')
              | JsonNull \<Rightarrow>
                  (\<lparr>status = 500, success = False,
                    error = Some ''Internal server error'',
                    message = None, resp_resetTime = None\<rparr>, store')
              | Body email appPassword \<Rightarrow>
                  let validation = validateInput email appPassword in
                  if \<not> valid validation then
                    (\<lparr>status = 400, success = False, error = v_error validation,
                      message = None, resp_resetTime = None\<rparr>, store')
                  else
                    let cleanEmail = toLowerCase (trim (the email));
                        cleanPassword = stripWhitespace (the appPassword)
                    in if testEmailConnection env cleanEmail cleanPassword then
                         (\<lparr>status = 200, success = True, error = None,
                           message = Some ''Credentials validated successfully'',
                           resp_resetTime = None\<rparr>, store')
                       else
                         (\<lparr>status = 401, success = False,
                           error = Some (if includesStr ''.edu.in'' (the email)
                                         then institutionalHint
                                         else ''Invalid email or app password. Please check your credentials.''),
                           message = None, resp_resetTime = None\<rparr>, store')))"

text \<open>
  \<open>the email\<close> and \<open>the appPassword\<close> are read only after \<open>validateInput\<close> has
  accepted, which it does for strings only. \<open>institutionalHint\<close> abbreviates the
  longer remediation text of the source. In the 429 answer, \<open>new Date()\<close> (taken when the
  limiter's reset time is 0 or missing) is read as \<open>now\<close>.
\<close>

section \<open>Credential vault (utils/secure-storage.ts)\<close>

type_synonym bytes = "nat list" \<comment> \<open>a \<open>Uint8Array\<close>: every element is below 256\<close>

datatype exn =
    Error string \<comment> \<open>an \<open>Error\<close> (or DOMException) with its message\<close>
  | NonError \<comment> \<open>a thrown value that is no \<open>Error\<close>\<close>

subsection \<open>Base64\<close>

definition b64 :: "nat \<Rightarrow> char" where
  "b64 n = ''ABCDEFGHIJKLMNOPQRSTUVWXYZabcdefghijklmnopqrstuvwxyz0123456789+/'' ! n"

fun btoa_bytes :: "bytes \<Rightarrow> string" where
  "btoa_bytes (a # b # c # rest) =
     [b64 (a div 4), b64 ((a mod 4) * 16 + b div 16), b64 ((b mod 16) * 4 + c div 64),
      b64 (c mod 64)] @ btoa_bytes rest"
| "btoa_bytes [a, b] =
     [b64 (a div 4), b64 ((a mod 4) * 16 + b div 16), b64 ((b mod 16) * 4), CHR ''='']"
| "btoa_bytes [a] = [b64 (a div 4), b64 ((a mod 4) * 16), CHR ''='', CHR ''='']"
| "btoa_bytes [] = []"

definition btoa :: "string \<Rightarrow> string" where
  \<comment> \<open>defined on every string of the model (all code units are below 256)\<close>
  "btoa s = btoa_bytes (map of_char s)"

subsection \<open>The browser\<close>

record BrowserEnv =
  userAgent :: string
  language :: string
  screen_width :: int
  screen_height :: int
  timezoneOffset :: int
  origin :: string
  crypto_available :: bool \<comment> \<open>\<open>window.crypto && window.crypto.getRandomValues\<close>\<close>
  storage_blocked :: bool \<comment> \<open>every access to \<open>sessionStorage\<close> throws\<close>
  STORAGE_KEY :: string \<comment> \<open>\<open>'sc_' + Math.random()...\<close>, drawn once when the module loads\<close>

definition getSecureRandom :: "BrowserEnv \<Rightarrow> bytes \<Rightarrow> exn + bytes" where
  \<comment> \<open>\<open>drawn\<close> is what \<open>getRandomValues\<close> fills the array with on this call\<close>
  "getSecureRandom env drawn =
     (if \<not> crypto_available env then Inl (Error ''Secure random number generation not available'')
      else Inr drawn)"

subsection \<open>The cipher, idealised\<close>

text \<open>
  PBKDF2 and AES-GCM belong to the browser. They are modelled symbolically: a derived key
  is the pair of password and salt it was derived from (no two pairs give the same key),
  and a ciphertext records the key, the nonce and the plaintext it was made from, so
  that decryption succeeds exactly under the same key and nonce. A ciphertext that no
  encryption produced is \<open>Forged\<close>. The Base64 and JSON encodings of the envelope's fields
  are inverse to their decodings and are left out: an \<open>Envelope\<close> is a stored string that
  parses to the four fields, and a stored string that does not (so that \<open>JSON.parse\<close>, a
  field access, \<open>atob\<close> or the decryption throws on it) is \<open>Malformed\<close>. The fingerprint is
  a string of the model, so \<open>btoa\<close> does not throw on it.
\<close>

record EncryptedCredentials =
  cred_email :: string
  cred_appPassword :: string
  cred_timestamp :: int

datatype CryptoKey = DerivedKey string bytes

datatype ciphertext =
    Sealed CryptoKey bytes EncryptedCredentials
  | Forged bytes

definition deriveKey :: "string \<Rightarrow> bytes \<Rightarrow> CryptoKey" where
  "deriveKey password salt = DerivedKey password salt"

definition aes_gcm_encrypt :: "CryptoKey \<Rightarrow> bytes \<Rightarrow> EncryptedCredentials \<Rightarrow> ciphertext" where
  "aes_gcm_encrypt key iv plaintext = Sealed key iv plaintext"

definition aes_gcm_decrypt :: "CryptoKey \<Rightarrow> bytes \<Rightarrow> ciphertext \<Rightarrow> exn + EncryptedCredentials" where
  "aes_gcm_decrypt key iv c =
     (case c of
        Sealed k n plaintext \<Rightarrow>
          if k = key \<and> n = iv then Inr plaintext else Inl (Error ''OperationError'')
      | Forged _ \<Rightarrow> Inl (Error ''OperationError''))"

record StoredCredentials =
  encryptedData :: ciphertext
  iv :: bytes
  salt :: bytes
  stored_timestamp :: int

datatype storage_item =
    Malformed string
  | Envelope StoredCredentials

type_synonym sessionStorage = "string \<rightharpoonup> storage_item"

definition getItem :: "BrowserEnv \<Rightarrow> string \<Rightarrow> sessionStorage \<Rightarrow> exn + storage_item option" where
  "getItem env k st = (if storage_blocked env then Inl (Error ''SecurityError'') else Inr (st k))"

definition setItem ::
  "BrowserEnv \<Rightarrow> string \<Rightarrow> storage_item \<Rightarrow> sessionStorage \<Rightarrow> exn + sessionStorage" where
  "setItem env k v st =
     (if storage_blocked env then Inl (Error ''SecurityError'') else Inr (st(k \<mapsto> v)))"

definition removeItem :: "BrowserEnv \<Rightarrow> string \<Rightarrow> sessionStorage \<Rightarrow> exn + sessionStorage" where
  "removeItem env k st =
     (if storage_blocked env then Inl (Error ''SecurityError'') else Inr (st(k := None)))"

subsection \<open>The vault\<close>

definition SESSION_TIMEOUT :: int where
  "SESSION_TIMEOUT = 60 * 60 * 1000"

definition browserFingerprint :: "BrowserEnv \<Rightarrow> string" where
  "browserFingerprint env =
     userAgent env @ ''|'' @ language env @ ''|''
       @ numberToString (screen_width env) @ ''x'' @ numberToString (screen_height env) @ ''|''
       @ numberToString (timezoneOffset env) @ ''|'' @ origin env"

definition generateSessionPassword :: "BrowserEnv \<Rightarrow> bytes \<Rightarrow> exn + string" where
  \<comment> \<open>\<open>drawn\<close>: the 32 bytes this call of \<open>getSecureRandom(32)\<close> returns\<close>
  "generateSessionPassword env drawn =
     (case getSecureRandom env drawn of
        Inl e \<Rightarrow> Inl e
      | Inr sessionEntropy \<Rightarrow>
          let combined = browserFingerprint env @ concat (map decimal sessionEntropy)
          in Inr (take 32 (btoa combined)))"

definition encryptCredentials ::
  "BrowserEnv \<Rightarrow> int \<Rightarrow> int \<Rightarrow> bytes \<Rightarrow> bytes \<Rightarrow> bytes \<Rightarrow> string \<Rightarrow> string
     \<Rightarrow> sessionStorage \<Rightarrow> exn + sessionStorage" where
  \<comment> \<open>\<open>now1\<close>, \<open>now2\<close>: the two readings of \<open>Date.now()\<close>; \<open>r_salt\<close>, \<open>r_iv\<close>, \<open>r_pw\<close>: what the
      three draws of random bytes return, in call order. \<open>Inl\<close> is the rethrown error.\<close>
  "encryptCredentials env now1 now2 r_salt r_iv r_pw email appPassword st =
     (if email = [] \<or> appPassword = [] then Inl (Error ''Email and app password are required'')
      else if \<not> rx_test emailRegex (trim email) then
        Inl (Error ''Please enter a valid Gmail address or educational email (.edu.in)'')
      else
        let cleanAppPassword = stripWhitespace appPassword in
        if length cleanAppPassword \<noteq> 16 \<or> \<not> rx_test alnumRegex cleanAppPassword then
          Inl (Error ''Invalid app password format. Should be 16 characters.'')
        else
          let credentials = \<lparr>cred_email = toLowerCase (trim email),
                              cred_appPassword = cleanAppPassword,
                              cred_timestamp = now1\<rparr>
          in case getSecureRandom env r_salt of
               Inl e \<Rightarrow> Inl e
             | Inr salt' \<Rightarrow>
                 (case getSecureRandom env r_iv of
                    Inl e \<Rightarrow> Inl e
                  | Inr iv' \<Rightarrow>
                      (case generateSessionPassword env r_pw of
                         Inl e \<Rightarrow> Inl e
                       | Inr sessionPassword \<Rightarrow>
                           let key = deriveKey sessionPassword salt';
                               encryptedBuffer = aes_gcm_encrypt key iv' credentials;
                               storedData = \<lparr>encryptedData = encryptedBuffer, iv = iv',
                                             salt = salt', stored_timestamp = now2\<rparr>
                           in setItem env (STORAGE_KEY env) (Envelope storedData) st)))"

definition clearCredentials :: "BrowserEnv \<Rightarrow> sessionStorage \<Rightarrow> exn + sessionStorage" where
  \<comment> \<open>its own \<open>try\<close>/\<open>catch\<close> swallows what \<open>removeItem\<close> throws\<close>
  "clearCredentials env st =
     (case removeItem env (STORAGE_KEY env) st of
        Inl e \<Rightarrow> Inr st
      | Inr st' \<Rightarrow> Inr st')"

definition cleared :: "BrowserEnv \<Rightarrow> sessionStorage \<Rightarrow> sessionStorage" where
  \<comment> \<open>the storage after \<open>clearCredentials()\<close>, which returns nothing\<close>
  "cleared env st = (case clearCredentials env st of Inl e \<Rightarrow> st | Inr st' \<Rightarrow> st')"

definition decryptCredentials_try ::
  "BrowserEnv \<Rightarrow> int \<Rightarrow> int \<Rightarrow> bytes \<Rightarrow> sessionStorage
     \<Rightarrow> exn + (EncryptedCredentials option \<times> sessionStorage)" where
  \<comment> \<open>the body of the \<open>try\<close> block: \<open>Inl\<close> is what it throws\<close>
  "decryptCredentials_try env now1 now2 r_pw st =
     (case getItem env (STORAGE_KEY env) st of
        Inl e \<Rightarrow> Inl e
      | Inr None \<Rightarrow> Inr (None, st)
      | Inr (Some (Malformed s)) \<Rightarrow>
          if s = [] then Inr (None, st) else Inl (Error ''SyntaxError'')
      | Inr (Some (Envelope parsed)) \<Rightarrow>
          if now1 - stored_timestamp parsed > SESSION_TIMEOUT then Inr (None, cleared env st)
          else
            (case generateSessionPassword env r_pw of
               Inl e \<Rightarrow> Inl e
             | Inr sessionPassword \<Rightarrow>
                 let key = deriveKey sessionPassword (salt parsed) in
                 (case aes_gcm_decrypt key (iv parsed) (encryptedData parsed) of
                    Inl e \<Rightarrow> Inl e
                  | Inr credentials \<Rightarrow>
                      if now2 - cred_timestamp credentials > SESSION_TIMEOUT
                      then Inr (None, cleared env st)
                      else Inr (Some credentials, st))))"

definition decryptCredentials ::
  "BrowserEnv \<Rightarrow> int \<Rightarrow> int \<Rightarrow> bytes \<Rightarrow> sessionStorage
     \<Rightarrow> exn + (EncryptedCredentials option \<times> sessionStorage)" where
  \<comment> \<open>\<open>try { ... } catch (error) { clearCredentials(); return null }\<close>\<close>
  "decryptCredentials env now1 now2 r_pw st =
     (case decryptCredentials_try env now1 now2 r_pw st of
        Inl e \<Rightarrow> Inr (None, cleared env st)
      | Inr r \<Rightarrow> Inr r)"

section \<open>Mail dispatcher (lib/email-service.tsx)\<close>

datatype EmailProvider = Resend | Gmail

datatype SendingMode = Sequential | Pooled

definition providerName :: "EmailProvider \<Rightarrow> string" where
  "providerName p = (case p of Resend \<Rightarrow> ''resend'' | Gmail \<Rightarrow> ''gmail'')"

record Credentials =
  auth_email :: string
  auth_appPassword :: string

record Recipient =
  r_email :: string
  r_name :: string
  certificateBlob :: bytes \<comment> \<open>a \<open>Buffer\<close>, as the endpoint passes it\<close>
  r_fileName :: string

subsection \<open>Messages\<close>

text \<open>
  The HTML of a message is one of three fixed templates with the recipient's name and
  file name put in; the template's text is not transcribed. The subject is the fixed
  congratulation line around the recipient's name, and the sender's display name is
  fixed, so a message records the name and the sender's address only.
\<close>

datatype attachment =
    PathAttachment string string string \<comment> \<open>\<open>filename\<close>, \<open>path\<close>, \<open>cid\<close>\<close>
  | ContentAttachment string bytes string \<comment> \<open>\<open>filename\<close>, \<open>content\<close>, \<open>contentType\<close>\<close>
  | Base64Attachment string string string \<comment> \<open>\<open>filename\<close>, Base64 \<open>content\<close>, \<open>contentType\<close>\<close>

datatype html =
    GmailHtml string string \<comment> \<open>single direct send: name and file name; refers to \<open>cid:klh-logo\<close>\<close>
  | ResendHtml string string \<comment> \<open>hosted send: name and file name; no logo\<close>
  | PooledHtml string \<comment> \<open>pooled send: name; refers to \<open>cid:klh-logo\<close>\<close>

record Mail =
  mail_from :: string
  mail_to :: string
  subject_name :: string
  mail_html :: html
  attachments :: "attachment list"

definition logoAttachment :: attachment where
  "logoAttachment = PathAttachment ''klh-logo.png'' ''./public/klh.png'' ''klh-logo''"

definition gmailMail :: "Credentials \<Rightarrow> string \<Rightarrow> string \<Rightarrow> bytes \<Rightarrow> string \<Rightarrow> Mail" where
  "gmailMail credentials email recipientName buffer fileName =
     \<lparr>mail_from = auth_email credentials, mail_to = email, subject_name = recipientName,
      mail_html = GmailHtml recipientName fileName,
      attachments = [logoAttachment, ContentAttachment fileName buffer ''image/png'']\<rparr>"

definition resendMail :: "string option \<Rightarrow> string \<Rightarrow> string \<Rightarrow> bytes \<Rightarrow> string \<Rightarrow> Mail" where
  \<comment> \<open>the first argument is \<open>process.env.RESEND_FROM_EMAIL\<close>\<close>
  "resendMail fromEnv email recipientName buffer fileName =
     \<lparr>mail_from = (case fromEnv of
                      Some a \<Rightarrow> if a \<noteq> [] then a else ''onboarding@resend.dev''
                    | None \<Rightarrow> ''onboarding@resend.dev''),
      mail_to = email, subject_name = recipientName,
      mail_html = ResendHtml recipientName fileName,
      attachments = [Base64Attachment fileName (btoa_bytes buffer) ''image/png'']\<rparr>"

definition pooledMail :: "Credentials \<Rightarrow> Recipient \<Rightarrow> Mail" where
  "pooledMail credentials recipient =
     \<lparr>mail_from = auth_email credentials, mail_to = r_email recipient,
      subject_name = r_name recipient, mail_html = PooledHtml (r_name recipient),
      attachments = [logoAttachment,
                     ContentAttachment (r_fileName recipient) (certificateBlob recipient)
                       ''image/png'']\<rparr>"

subsection \<open>Transports\<close>

datatype smtpConfig =
    Service string
  | Host string nat bool \<comment> \<open>\<open>host\<close>, \<open>port\<close>, \<open>secure\<close>\<close>

record Transporter =
  smtp :: smtpConfig
  pool :: bool
  auth :: Credentials

datatype event =
    LogSending EmailProvider string
      \<comment> \<open>\<open>sendCertificateEmail\<close> has started for this address (its first log line)\<close>
  | SmtpSend Transporter Mail \<comment> \<open>\<open>transporter.sendMail\<close> is called\<close>
  | ResendSend Mail \<comment> \<open>\<open>resend.emails.send\<close> is called\<close>
  | LogResolved string bool
      \<comment> \<open>\<open>sendCertificateEmail\<close> returns for this address: the success line or the error line\<close>
  | Timeout nat \<comment> \<open>\<open>await new Promise((resolve) => setTimeout(resolve, ms))\<close>\<close>

text \<open>
  The mail server, the hosted API and the server's disk are outside the repository. What
  a transport answers may depend on everything that has happened so far, so each is a
  function of the trace of events. \<open>Inl\<close> is a rejected promise.
\<close>

datatype json =
    JNull
  | JBool bool
  | JNumber int
  | JString string
  | JArray "json list"
  | JObject "(string \<times> json) list"

record MailEnv =
  RESEND_FROM_EMAIL :: "string option"
  smtp_sendMail :: "event list \<Rightarrow> Transporter \<Rightarrow> Mail \<Rightarrow> exn + string"
    \<comment> \<open>the \<open>messageId\<close> of \<open>info\<close>\<close>
  resend_send :: "event list \<Rightarrow> Mail \<Rightarrow> exn + string option"
    \<comment> \<open>\<open>response.data?.id\<close>\<close>
  asset_exists :: "string \<Rightarrow> bool" \<comment> \<open>the files on the server's disk\<close>
  base64_decode :: "string \<Rightarrow> bytes" \<comment> \<open>\<open>Buffer.from(s, "base64")\<close> for a string \<open>s\<close>\<close>
  buffer_from :: "json option \<Rightarrow> exn + bytes"
    \<comment> \<open>\<open>Buffer.from(v, "base64")\<close> for a \<open>v\<close> that is not a string; \<open>None\<close> is \<open>undefined\<close>\<close>

definition createEmailTransporter :: "Credentials \<Rightarrow> exn + Transporter" where
  \<comment> \<open>called with credentials only: the caller has tested them\<close>
  "createEmailTransporter credentials =
     (let isGmail = endsWith ''@gmail.com'' (auth_email credentials);
          isEducational = includesStr ''.edu.in'' (auth_email credentials)
      in if isGmail then Inr \<lparr>smtp = Service ''gmail'', pool = False, auth = credentials\<rparr>
         else if isEducational then
           Inr \<lparr>smtp = Host ''smtp.gmail.com'' 587 False, pool = False, auth = credentials\<rparr>
         else Inl (Error ''Unsupported email domain''))"

definition errorMessage :: "exn \<Rightarrow> string" where
  \<comment> \<open>\<open>error instanceof Error ? error.message : "Unknown error"\<close>\<close>
  "errorMessage e = (case e of Error m \<Rightarrow> m | NonError \<Rightarrow> ''Unknown error'')"

subsection \<open>One message\<close>

record SendResult =
  s_success :: bool
  s_messageId :: "string option"
  s_error :: "string option"
  s_provider :: string

definition sendCertificateEmail_try ::
  "MailEnv \<Rightarrow> string \<Rightarrow> string \<Rightarrow> bytes \<Rightarrow> string \<Rightarrow> EmailProvider \<Rightarrow> Credentials option
     \<Rightarrow> event list \<Rightarrow> (exn + SendResult) \<times> event list" where
  \<comment> \<open>the body of the \<open>try\<close> block, from its first log line on\<close>
  "sendCertificateEmail_try env email recipientName buffer fileName provider credentials tr =
     (let tr1 = tr @ [LogSending provider email] in
      case provider of
        Gmail \<Rightarrow>
          (case credentials of
             None \<Rightarrow> (Inl (Error ''Gmail credentials required but not provided''), tr1)
           | Some c \<Rightarrow>
               (case createEmailTransporter c of
                  Inl e \<Rightarrow> (Inl e, tr1)
                | Inr transporter \<Rightarrow>
                    let mail = gmailMail c email recipientName buffer fileName;
                        tr2 = tr1 @ [SmtpSend transporter mail]
                    in (case smtp_sendMail env tr1 transporter mail of
                          Inl e \<Rightarrow> (Inl e, tr2)
                        | Inr messageId \<Rightarrow>
                            (Inr \<lparr>s_success = True, s_messageId = Some messageId,
                                  s_error = None, s_provider = ''gmail''\<rparr>, tr2))))
      | Resend \<Rightarrow>
          let mail = resendMail (RESEND_FROM_EMAIL env) email recipientName buffer fileName;
              tr2 = tr1 @ [ResendSend mail]
          in (case resend_send env tr1 mail of
                Inl e \<Rightarrow> (Inl e, tr2)
              | Inr dataId \<Rightarrow>
                  (Inr \<lparr>s_success = True, s_messageId = dataId, s_error = None,
                        s_provider = ''resend''\<rparr>, tr2)))"

definition sendCertificateEmail ::
  "MailEnv \<Rightarrow> string \<Rightarrow> string \<Rightarrow> bytes \<Rightarrow> string \<Rightarrow> EmailProvider \<Rightarrow> Credentials option
     \<Rightarrow> event list \<Rightarrow> SendResult \<times> event list" where
  \<comment> \<open>\<open>try { ... } catch (error) { return { success: false, ... } }\<close>\<close>
  "sendCertificateEmail env email recipientName buffer fileName provider credentials tr =
     (case sendCertificateEmail_try env email recipientName buffer fileName provider credentials tr of
        (Inr r, tr') \<Rightarrow> (r, tr' @ [LogResolved email True])
      | (Inl e, tr') \<Rightarrow>
          (\<lparr>s_success = False, s_messageId = None, s_error = Some (errorMessage e),
            s_provider = providerName provider\<rparr>, tr' @ [LogResolved email False]))"

subsection \<open>A batch\<close>

record DispatchResult =
  d_email :: string
  d_success :: bool
  d_messageId :: "string option"
  d_error :: "string option"
  d_provider :: string

definition withEmail :: "string \<Rightarrow> SendResult \<Rightarrow> DispatchResult" where
  \<comment> \<open>\<open>{ email: recipient.email, ...result }\<close>\<close>
  "withEmail email r =
     \<lparr>d_email = email, d_success = s_success r, d_messageId = s_messageId r,
      d_error = s_error r, d_provider = s_provider r\<rparr>"

fun sequentialLoop ::
  "MailEnv \<Rightarrow> EmailProvider \<Rightarrow> Credentials option \<Rightarrow> Recipient list \<Rightarrow> event list
     \<Rightarrow> DispatchResult list \<times> event list" where
  \<comment> \<open>\<open>for (const recipient of recipients) { ... }\<close>, returning what the loop pushes\<close>
  "sequentialLoop env provider credentials [] tr = ([], tr)"
| "sequentialLoop env provider credentials (recipient # rest) tr =
     (let (result, tr1) =
            sendCertificateEmail env (r_email recipient) (r_name recipient)
              (certificateBlob recipient) (r_fileName recipient) provider credentials tr;
          tr2 = tr1 @ [Timeout 500];
          (results, tr3) = sequentialLoop env provider credentials rest tr2
      in (withEmail (r_email recipient) result # results, tr3))"

definition shouldUsePooled :: "SendingMode option \<Rightarrow> EmailProvider \<Rightarrow> nat \<Rightarrow> bool" where
  "shouldUsePooled sendingMode provider n =
     (sendingMode = Some Pooled \<or>
      (sendingMode \<noteq> Some Sequential \<and> provider = Gmail \<and> n \<ge> 50))"

definition selectedMode :: "SendingMode option \<Rightarrow> EmailProvider \<Rightarrow> nat \<Rightarrow> SendingMode" where
  \<comment> \<open>which branch \<open>if (shouldUsePooled && provider === "gmail")\<close> takes in
      \<open>sendBulkCertificates\<close>\<close>
  "selectedMode sendingMode provider n =
     (if shouldUsePooled sendingMode provider n \<and> provider = Gmail then Pooled else Sequential)"

type_synonym pooledSender =
  "Recipient list \<Rightarrow> Credentials \<Rightarrow> event list \<Rightarrow> (exn + DispatchResult list) \<times> event list"

definition sendBulkCertificates ::
  "MailEnv \<Rightarrow> pooledSender \<Rightarrow> Recipient list \<Rightarrow> EmailProvider \<Rightarrow> SendingMode option
     \<Rightarrow> Credentials option \<Rightarrow> event list \<Rightarrow> (exn + DispatchResult list) \<times> event list" where
  \<comment> \<open>\<open>pooled\<close> stands for what \<open>await sendBulkCertificatesPooled(recipients, credentials)\<close>
      gives; that function is modelled by \<open>step\<close> below\<close>
  "sendBulkCertificates env pooled recipients provider sendingMode credentials tr =
     (if shouldUsePooled sendingMode provider (length recipients) \<and> provider = Gmail then
        (case credentials of
           None \<Rightarrow> (Inl (Error ''Gmail credentials required for pooled sending''), tr)
         | Some c \<Rightarrow> pooled recipients c tr)
      else
        (let (results, tr') = sequentialLoop env provider credentials recipients tr
         in (Inr results, tr')))"

subsection \<open>The pooled batch\<close>

text \<open>
  The pooled transporter is held in the module-level variable \<open>pooledEmailTransporter\<close>:
  \<open>createPooledEmailTransporter\<close> creates one when the variable is \<open>null\<close> and returns the
  one it holds otherwise, whatever credentials it is called with. The variable is set
  back to \<open>null\<close> by the handler of \<open>SIGTERM\<close> and \<open>SIGINT\<close> only. So the batches of one
  server process share a transporter object, and the state of the module is a store of
  transporter objects (an address is an index of \<open>transporters\<close>), the variable, and the
  batches started so far.

  Each call of \<open>sendBulkCertificatesPooled\<close> registers a listener for the \<open>idle\<close> event of
  its transporter, and no listener is ever removed. A batch holds the variables of its
  call (\<open>recipients\<close>, \<open>credentials\<close>, \<open>pooledTransporter\<close>, \<open>queuedRecipients\<close>, \<open>results\<close>,
  \<open>sentCount\<close>), the recipients whose \<open>sendMail\<close> a run of its listener awaits, the messages
  it has handed to \<open>sendMail\<close>, and what its promise was resolved with. For a transporter
  object the number of calls of \<open>close()\<close> is recorded.
\<close>

record PooledTransporter =
  transport :: Transporter
  closeCalls :: nat

record Batch =
  b_recipients :: "Recipient list"
  b_credentials :: Credentials
  pooledTransporter :: nat
  queuedRecipients :: "Recipient list"
  inflight :: "Recipient list"
  calls :: "Mail list"
  results :: "DispatchResult list"
  sentCount :: nat
  resolved :: "DispatchResult list option"

record Module =
  transporters :: "PooledTransporter list"
  pooledEmailTransporter :: "nat option"
  batches :: "Batch list"

definition moduleInit :: Module where
  \<comment> \<open>when the module has been loaded\<close>
  "moduleInit = \<lparr>transporters = [], pooledEmailTransporter = None, batches = []\<rparr>"

definition createTransport :: "smtpConfig \<Rightarrow> Credentials \<Rightarrow> Module \<Rightarrow> nat \<times> Module" where
  \<comment> \<open>\<open>pooledEmailTransporter = nodemailer.createTransport({...smtpConfig, pool: true, ...,
      auth: {...}})\<close>: a new transporter object, open, and the variable holds it; the limits
      given for the pool (\<open>maxConnections\<close>, \<open>maxMessages\<close>, \<open>rateDelta\<close>, \<open>rateLimit\<close>) are
      constants and are not recorded\<close>
  "createTransport config credentials m =
     (length (transporters m),
      m\<lparr>transporters := transporters m
           @ [\<lparr>transport = \<lparr>smtp = config, pool = True, auth = credentials\<rparr>,
               closeCalls = 0\<rparr>],
        pooledEmailTransporter := Some (length (transporters m))\<rparr>)"

definition createPooledEmailTransporter :: "Credentials \<Rightarrow> Module \<Rightarrow> exn + nat \<times> Module" where
  \<comment> \<open>called with credentials only; the listener it registers logs and does nothing else\<close>
  "createPooledEmailTransporter credentials m =
     (case pooledEmailTransporter m of
        Some a \<Rightarrow> Inr (a, m)
      | None \<Rightarrow>
          (let isGmail = endsWith ''@gmail.com'' (auth_email credentials);
               isEducational = includesStr ''.edu.in'' (auth_email credentials)
           in if isGmail then
                Inr (createTransport (Host ''smtp.gmail.com'' 587 False) credentials m)
              else if isEducational then
                Inr (createTransport (Host ''smtp.gmail.com'' 587 False) credentials m)
              else Inl (Error ''Unsupported email domain'')))"

definition closeTransporter :: "nat \<Rightarrow> Module \<Rightarrow> Module" where
  \<comment> \<open>\<open>close()\<close> on the transporter object at this address\<close>
  "closeTransporter a m =
     m\<lparr>transporters := (transporters m)
          [a := (transporters m ! a)\<lparr>closeCalls := closeCalls (transporters m ! a) + 1\<rparr>]\<rparr>"

definition shutdownHandler :: "Module \<Rightarrow> Module" where
  \<comment> \<open>\<open>if (pooledEmailTransporter) { pooledEmailTransporter.close(); pooledEmailTransporter = null }\<close>\<close>
  "shutdownHandler m =
     (case pooledEmailTransporter m of
        None \<Rightarrow> m
      | Some a \<Rightarrow> (closeTransporter a m)\<lparr>pooledEmailTransporter := None\<rparr>)"

definition newBatch :: "Recipient list \<Rightarrow> Credentials \<Rightarrow> nat \<Rightarrow> Batch" where
  "newBatch recipients credentials a =
     \<lparr>b_recipients = recipients, b_credentials = credentials, pooledTransporter = a,
      queuedRecipients = recipients, inflight = [], calls = [], results = [], sentCount = 0,
      resolved = None\<rparr>"

definition sendBulkCertificatesPooled :: "Recipient list \<Rightarrow> Credentials \<Rightarrow> Module \<Rightarrow> exn + Module" where
  \<comment> \<open>the call, up to the registration of its listener; \<open>Inl\<close>: the promise it returns is
      rejected and nothing is registered\<close>
  "sendBulkCertificatesPooled recipients credentials m =
     (case createPooledEmailTransporter credentials m of
        Inl e \<Rightarrow> Inl e
      | Inr (a, m') \<Rightarrow> Inr (m'\<lparr>batches := batches m' @ [newBatch recipients credentials a]\<rparr>))"

definition pooledOutcome :: "Recipient \<Rightarrow> exn + string \<Rightarrow> DispatchResult" where
  \<comment> \<open>what is pushed after the \<open>await\<close>: in the \<open>try\<close> for a \<open>messageId\<close>, in the \<open>catch\<close> for an error\<close>
  "pooledOutcome recipient out =
     (case out of
        Inr messageId \<Rightarrow>
          \<lparr>d_email = r_email recipient, d_success = True, d_messageId = Some messageId,
           d_error = None, d_provider = ''gmail-pooled''\<rparr>
      | Inl e \<Rightarrow>
          \<lparr>d_email = r_email recipient, d_success = False, d_messageId = None,
           d_error = Some (errorMessage e), d_provider = ''gmail-pooled''\<rparr>)"

definition recordOutcome :: "Recipient \<Rightarrow> exn + string \<Rightarrow> Batch \<Rightarrow> Batch" where
  \<comment> \<open>\<open>results.push(...); sentCount++\<close> when the awaited send of \<open>recipient\<close> settles\<close>
  "recordOutcome recipient out b =
     b\<lparr>inflight := remove1 recipient (inflight b),
       results := results b @ [pooledOutcome recipient out],
       sentCount := sentCount b + 1\<rparr>"

definition shiftAndSend :: "Recipient \<Rightarrow> Recipient list \<Rightarrow> Batch \<Rightarrow> Batch" where
  \<comment> \<open>\<open>queuedRecipients.shift()\<close> gave \<open>recipient\<close> and left \<open>rest\<close>; \<open>sendMail\<close> is called\<close>
  "shiftAndSend recipient rest b =
     b\<lparr>queuedRecipients := rest, inflight := recipient # inflight b,
       calls := calls b @ [pooledMail (b_credentials b) recipient]\<rparr>"

definition resolve :: "Batch \<Rightarrow> Batch" where
  \<comment> \<open>\<open>resolve(results)\<close>; resolving a second time changes nothing\<close>
  "resolve b =
     b\<lparr>resolved := (case resolved b of None \<Rightarrow> Some (results b) | Some rs \<Rightarrow> Some rs)\<rparr>"

definition setBatch :: "nat \<Rightarrow> Batch \<Rightarrow> Module \<Rightarrow> Module" where
  "setBatch i b m = m\<lparr>batches := (batches m)[i := b]\<rparr>"

definition completionCheck :: "nat \<Rightarrow> Batch \<Rightarrow> Module \<Rightarrow> Module" where
  \<comment> \<open>\<open>if (queuedRecipients.length === 0 && sentCount === recipients.length)
      { pooledTransporter.close(); resolve(results) }\<close>, run by the listener of batch \<open>i\<close>,
      whose variables are \<open>b\<close>\<close>
  "completionCheck i b m =
     (if queuedRecipients b = [] \<and> sentCount b = length (b_recipients b) then
        setBatch i (resolve b) (closeTransporter (pooledTransporter b) m)
      else setBatch i b m)"

definition loopHead :: "nat \<Rightarrow> bool \<Rightarrow> Batch \<Rightarrow> Module \<Rightarrow> Module" where
  \<comment> \<open>\<open>while (pooledTransporter.isIdle() && queuedRecipients.length > 0)\<close> with what follows
      up to the next \<open>await\<close> or the end of the listener\<close>
  "loopHead i isIdle b m =
     (case queuedRecipients b of
        recipient # rest \<Rightarrow>
          if isIdle then setBatch i (shiftAndSend recipient rest b) m
          else completionCheck i b m
      | [] \<Rightarrow> completionCheck i b m)"

text \<open>
  What happens to the module, one turn of the event loop at a time. An \<open>idle\<close> event runs
  the registered listeners one after the other, each up to its first \<open>await\<close>: that is one
  \<open>Idle\<close> turn for each batch. When the event fires, what \<open>isIdle()\<close> answers and how a
  send settles belong to the transporter, so a turn carries them. A turn that cannot
  happen in the state (no such batch, no such send awaited) gives \<open>None\<close>.
\<close>

datatype action =
    Call "Recipient list" Credentials
      \<comment> \<open>\<open>sendBulkCertificatesPooled(recipients, credentials)\<close> is called\<close>
  | Idle nat bool
      \<comment> \<open>the listener of this batch is run for an \<open>idle\<close> event; what \<open>isIdle()\<close> answers\<close>
  | Settled nat Recipient "exn + string" bool
      \<comment> \<open>the send this batch awaits for the recipient settles: rejected, or fulfilled with a
          \<open>messageId\<close>; what \<open>isIdle()\<close> answers at the head of the loop\<close>
  | Signal \<comment> \<open>\<open>SIGTERM\<close> or \<open>SIGINT\<close>\<close>

fun step :: "action \<Rightarrow> Module \<Rightarrow> Module option" where
  "step (Call recipients credentials) m =
     (case sendBulkCertificatesPooled recipients credentials m of
        Inl e \<Rightarrow> Some m
      | Inr m' \<Rightarrow> Some m')"
| "step (Idle i isIdle) m =
     (if i < length (batches m) then Some (loopHead i isIdle (batches m ! i) m) else None)"
| "step (Settled i recipient out isIdle) m =
     (if i < length (batches m) \<and> recipient \<in> set (inflight (batches m ! i)) then
        Some (loopHead i isIdle (recordOutcome recipient out (batches m ! i)) m)
      else None)"
| "step Signal m = Some (shutdownHandler m)"

fun execute :: "action list \<Rightarrow> Module \<Rightarrow> Module option" where
  "execute [] m = Some m"
| "execute (a # as) m = (case step a m of None \<Rightarrow> None | Some m' \<Rightarrow> execute as m')"


subsection \<open>What a sequential trace looks like\<close>


text \<open>
  What every batch satisfies at every turn: each recipient is in exactly one of the
  results, the sends awaited and the queue; each message handed to \<open>sendMail\<close> belongs to a
  recipient that has left the queue; \<open>sentCount\<close> counts the results; and once the promise
  is resolved, it holds the results as they stand and \<open>sentCount\<close> is the number of
  recipients.
\<close>

definition batch_inv :: "Batch \<Rightarrow> bool" where
  "batch_inv b =
     (mset (map d_email (results b)) + mset (map r_email (inflight b))
        + mset (map r_email (queuedRecipients b)) = mset (map r_email (b_recipients b))
      \<and> mset (calls b) + mset (map (pooledMail (b_credentials b)) (queuedRecipients b))
          = mset (map (pooledMail (b_credentials b)) (b_recipients b))
      \<and> sentCount b = length (results b)
      \<and> (resolved b \<noteq> None \<longrightarrow>
            resolved b = Some (results b) \<and> sentCount b = length (b_recipients b)))"


section \<open>Batch endpoint (send-certificates/route.ts)\<close>











section \<open>Sample inputs\<close>

text \<open>
  Inputs on which the theorems below are run. \<open>sampleMailEnv files\<close> is a server whose
  disk holds the files \<open>files\<close>, whose SMTP transport rejects a message when it cannot
  read the file of a path attachment and accepts it otherwise, whose hosted API rejects
  one address, whose Base64 decoder knows the sample certificate (the four bytes
  \<open>iVBORw==\<close>), and whose \<open>Buffer.from\<close> takes strings only: for a missing value and for
  \<open>null\<close> it throws what Node throws, and it is made to throw for every other value too.
\<close>

definition sampleRecipient :: "string \<Rightarrow> Recipient" where
  "sampleRecipient a = \<lparr>r_email = a, r_name = ''Asha'', certificateBlob = [137, 80, 78, 71],
                        r_fileName = ''asha.png''\<rparr>"

definition sampleMailEnv :: "(string \<Rightarrow> bool) \<Rightarrow> MailEnv" where
  "sampleMailEnv files =
     \<lparr>RESEND_FROM_EMAIL = None,
      smtp_sendMail = (\<lambda>tr t m.
         if list_all (\<lambda>a. case a of PathAttachment f path cid \<Rightarrow> files path | _ \<Rightarrow> True)
              (attachments m)
         then Inr ''<1@smtp>'' else Inl (Error ''ENOENT'')),
      resend_send = (\<lambda>tr m. if mail_to m = ''bad@example.org'' then Inl (Error ''rejected'')
                              else Inr (Some ''re_1'')),
      asset_exists = files,
      base64_decode = (\<lambda>s. if s = btoa_bytes [137, 80, 78, 71] then [137, 80, 78, 71] else []),
      buffer_from = (\<lambda>v. Inl (Error (''The first argument must be of type string or an ''
         @ ''instance of Buffer, ArrayBuffer, or Array or an Array-like Object. Received ''
         @ (case v of None \<Rightarrow> ''undefined'' | Some JNull \<Rightarrow> ''null''
            | Some _ \<Rightarrow> ''an instance of Object''))))\<rparr>"

definition noPooled :: pooledSender where
  "noPooled recipients credentials tr = (Inr [], tr)"


definition missingCredentials :: "string \<Rightarrow> DispatchResult" where
  "missingCredentials a =
     \<lparr>d_email = a, d_success = False, d_messageId = None,
      d_error = Some ''Gmail credentials required but not provided'', d_provider = ''gmail''\<rparr>"

definition sampleCredentials :: Credentials where
  "sampleCredentials = \<lparr>auth_email = ''sender@gmail.com'', auth_appPassword = ''abcdefghijklmnop''\<rparr>"

definition shortFingerprintEnv :: BrowserEnv where
  "shortFingerprintEnv =
     \<lparr>userAgent = ''x'', language = ''en'', screen_width = 800, screen_height = 600,
      timezoneOffset = 0, origin = ''http://x'', crypto_available = True,
      storage_blocked = False, STORAGE_KEY = ''sc_k3j9x2''\<rparr>"

definition sampleBrowserEnv :: BrowserEnv where
  "sampleBrowserEnv =
     \<lparr>userAgent = ''Mozilla/5.0 (X11; Linux x86_64) AppleWebKit/537.36'', language = ''en-US'',
      screen_width = 1920, screen_height = 1080, timezoneOffset = -330,
      origin = ''http://localhost:3000'', crypto_available = True,
      storage_blocked = False, STORAGE_KEY = ''sc_k3j9x2''\<rparr>"

definition sampleValidationEnv :: ValidationEnv where
  "sampleValidationEnv =
     \<lparr>production = True, smtp_verify = (\<lambda>user pass. pass = ''abcdefghijklmnop'')\<rparr>"

definition sampleRequest :: ValidationRequest where
  "sampleRequest =
     \<lparr>url = ''https://certs.example.org/api/validate-gmail-credentials'',
      x_forwarded_for = Some ''203.0.113.7, 10.0.0.1'', x_real_ip = None,
      body = Body (Some ''user@gmail.com'') (Some ''abcd efgh ijkl mnop'')\<rparr>"

text \<open>
  Two pooled batches in one server process, one after the other. The first has one
  recipient: its listener is run for an \<open>idle\<close> event and hands the message to \<open>sendMail\<close>,
  the send is fulfilled, and the listener closes the transporter and resolves the
  promise. Then \<open>sendBulkCertificatesPooled\<close> is called for the second batch.
\<close>

definition twoBatches :: "action list" where
  "twoBatches =
     [Call [sampleRecipient ''a@example.org''] sampleCredentials,
      Idle 0 True,
      Settled 0 (sampleRecipient ''a@example.org'') (Inr ''<1@smtp>'') True,
      Call [sampleRecipient ''b@example.org''] sampleCredentials]"

text \<open>
  Two pooled batches of one recipient each that run at the same time: both are started,
  an \<open>idle\<close> event runs both listeners and each hands its message to \<open>sendMail\<close>, and the
  send of the first batch is fulfilled first.
\<close>

definition overlappingBatches :: "action list" where
  "overlappingBatches =
     [Call [sampleRecipient ''a@example.org''] sampleCredentials,
      Call [sampleRecipient ''b@example.org''] sampleCredentials,
      Idle 0 True,
      Idle 1 True,
      Settled 0 (sampleRecipient ''a@example.org'') (Inr ''<1@smtp>'') True]"

section \<open>Properties\<close>

subsection \<open>The matcher on the patterns of the source\<close>

lemma derivs_Alt: "derivs s (Alt r1 r2) = Alt (derivs s r1) (derivs s r2)"
  by (induction s arbitrary: r1 r2) auto

lemma rx_test_Alt: "rx_test (Alt r1 r2) s = (rx_test r1 s \<or> rx_test r2 s)"
  by (simp add: rx_test_def derivs_Alt)

lemma derivs_Cat_Never: "derivs s (Cat Never r) = Cat Never r"
  by (induction s) auto

lemma rx_test_Cat_Never: "\<not> rx_test (Cat Never r) s"
  by (simp add: rx_test_def derivs_Cat_Never)

lemma rx_test_Cat_Empty: "rx_test (Cat Empty r) s = rx_test r s"
  by (cases s) (simp_all add: rx_test_def derivs_Alt derivs_Cat_Never)

lemma rx_test_Star_Cls: "rx_test (Star (Cls P)) s = list_all P s"
proof (induction s)
  case Nil
  show ?case by (simp add: rx_test_def)
next
  case (Cons c s)
  have "rx_test (Star (Cls P)) (c # s) = rx_test (Cat (if P c then Empty else Never) (Star (Cls P))) s"
    by (simp add: rx_test_def)
  also have "\<dots> = (P c \<and> rx_test (Star (Cls P)) s)"
    by (simp add: rx_test_Cat_Empty rx_test_Cat_Never)
  finally show ?case by (simp add: Cons.IH)
qed

lemma rx_test_Plus_Cls: "rx_test (Plus (Cls P)) s = (s \<noteq> [] \<and> list_all P s)"
proof (cases s)
  case Nil
  then show ?thesis by (simp add: rx_test_def Plus_def)
next
  case (Cons c cs)
  have "rx_test (Plus (Cls P)) (c # cs) = rx_test (Cat (if P c then Empty else Never) (Star (Cls P))) cs"
    by (simp add: rx_test_def Plus_def)
  also have "\<dots> = (P c \<and> rx_test (Star (Cls P)) cs)"
    by (simp add: rx_test_Cat_Empty rx_test_Cat_Never)
  finally show ?thesis by (simp add: Cons rx_test_Star_Cls)
qed

lemma gmail_address_ok: "rx_test emailRegex (trim ''user@gmail.com'')"
  by code_simp

lemma edu_address_ok: "rx_test emailRegex (trim ''student@college.edu.in'')"
  by code_simp

lemma org_address_rejected: "\<not> rx_test emailRegex (trim ''user@notgmail.org'')"
  by code_simp

lemma validateInput_valid_iff:
  "valid (validateInput email appPassword) =
     (\<exists>e p. email = Some e \<and> appPassword = Some p \<and> rx_test emailRegex (trim e) \<and>
        length (stripWhitespace p) = 16 \<and> list_all isAlnum (stripWhitespace p))"
proof -
  have ne: "length (stripWhitespace p) = 16 \<Longrightarrow> p \<noteq> []" for p
    by (auto simp: stripWhitespace_def)
  have ee: "rx_test emailRegex (trim e) \<Longrightarrow> e \<noteq> []" for e
    by (cases e) (auto simp: trim_def rx_test_def emailRegex_def Plus_def)
  show ?thesis
    using ne ee
    by (auto simp: validateInput_def Let_def alnumRegex_def rx_test_Plus_Cls split: option.splits)
qed

subsection \<open>Rate limiter\<close>

lemma checkRateLimit_fresh:
  "store ip = None \<or> (\<exists>e. store ip = Some e \<and> rl_resetTime e < now) \<Longrightarrow>
   checkRateLimit now ip store =
     (\<lparr>allowed = True, resetTime = None\<rparr>,
      store(ip \<mapsto> \<lparr>rl_count = 1, rl_resetTime = now + RATE_LIMIT_WINDOW\<rparr>))"
  by (auto simp: checkRateLimit_def)

lemma checkRateLimit_counted:
  "store ip = Some e \<Longrightarrow> now \<le> rl_resetTime e \<Longrightarrow> rl_count e < RATE_LIMIT_MAX_ATTEMPTS \<Longrightarrow>
   checkRateLimit now ip store =
     (\<lparr>allowed = True, resetTime = None\<rparr>, store(ip \<mapsto> e\<lparr>rl_count := rl_count e + 1\<rparr>))"
  by (simp add: checkRateLimit_def)

lemma checkRateLimit_rejected:
  "store ip = Some e \<Longrightarrow> now \<le> rl_resetTime e \<Longrightarrow> RATE_LIMIT_MAX_ATTEMPTS \<le> rl_count e \<Longrightarrow>
   checkRateLimit now ip store =
     (\<lparr>allowed = False, resetTime = Some (rl_resetTime e)\<rparr>, store)"
  by (simp add: checkRateLimit_def)

lemma checkRateLimit_other_clients:
  "ip' \<noteq> ip \<Longrightarrow> snd (checkRateLimit now ip store) ip' = store ip'"
  by (auto simp: checkRateLimit_def split: option.splits)

lemma attempts_in_window:
  assumes "store ip = Some e" and "\<forall>t\<in>set ts. t \<le> rl_resetTime e" and "rl_count e \<le> 5"
  shows "attempts ts ip store =
     (map (\<lambda>i. \<lparr>allowed = (rl_count e + i < 5),
                resetTime = (if rl_count e + i < 5 then None else Some (rl_resetTime e))\<rparr>)
          [0..<length ts],
      store(ip \<mapsto> e\<lparr>rl_count := min 5 (rl_count e + length ts)\<rparr>))"
  using assms
proof (induction ts arbitrary: store e)
  case Nil
  then show ?case by auto
next
  case (Cons t ts)
  show ?case
  proof (cases "rl_count e < 5")
    case True
    let ?e' = "e\<lparr>rl_count := rl_count e + 1\<rparr>"
    let ?s' = "store(ip \<mapsto> ?e')"
    have step: "checkRateLimit t ip store = (\<lparr>allowed = True, resetTime = None\<rparr>, ?s')"
      using Cons.prems True by (simp add: checkRateLimit_counted RATE_LIMIT_MAX_ATTEMPTS_def)
    have ih: "attempts ts ip ?s' =
       (map (\<lambda>i. \<lparr>allowed = (rl_count ?e' + i < 5),
                resetTime = (if rl_count ?e' + i < 5 then None else Some (rl_resetTime ?e'))\<rparr>)
          [0..<length ts],
        ?s'(ip \<mapsto> ?e'\<lparr>rl_count := min 5 (rl_count ?e' + length ts)\<rparr>))"
      using Cons.prems True by (intro Cons.IH) auto
    have idx: "[0..<length (t # ts)] = 0 # map Suc [0..<length ts]"
      by (simp add: upt_conv_Cons map_Suc_upt del: upt_Suc)
    have "attempts (t # ts) ip store =
        (\<lparr>allowed = True, resetTime = None\<rparr> # fst (attempts ts ip ?s'), snd (attempts ts ip ?s'))"
      by (simp add: step split: prod.splits)
    also have "\<dots> = (map (\<lambda>i. \<lparr>allowed = (rl_count e + i < 5),
                resetTime = (if rl_count e + i < 5 then None else Some (rl_resetTime e))\<rparr>)
          [0..<length (t # ts)],
      store(ip \<mapsto> e\<lparr>rl_count := min 5 (rl_count e + length (t # ts))\<rparr>))"
      unfolding ih idx using True by (simp add: comp_def)
    finally show ?thesis .
  next
    case False
    with Cons.prems have c5: "rl_count e = 5" by simp
    have step: "checkRateLimit t ip store =
        (\<lparr>allowed = False, resetTime = Some (rl_resetTime e)\<rparr>, store)"
      using Cons.prems c5 by (simp add: checkRateLimit_rejected RATE_LIMIT_MAX_ATTEMPTS_def)
    have ih: "attempts ts ip store =
       (map (\<lambda>i. \<lparr>allowed = (rl_count e + i < 5),
                resetTime = (if rl_count e + i < 5 then None else Some (rl_resetTime e))\<rparr>)
          [0..<length ts],
        store(ip \<mapsto> e\<lparr>rl_count := min 5 (rl_count e + length ts)\<rparr>))"
      using Cons.prems by (intro Cons.IH) auto
    have idx: "[0..<length (t # ts)] = 0 # map Suc [0..<length ts]"
      by (simp add: upt_conv_Cons map_Suc_upt del: upt_Suc)
    have "attempts (t # ts) ip store =
        (\<lparr>allowed = False, resetTime = Some (rl_resetTime e)\<rparr> # fst (attempts ts ip store),
         snd (attempts ts ip store))"
      by (simp add: step split: prod.splits)
    also have "\<dots> = (map (\<lambda>i. \<lparr>allowed = (rl_count e + i < 5),
                resetTime = (if rl_count e + i < 5 then None else Some (rl_resetTime e))\<rparr>)
          [0..<length (t # ts)],
      store(ip \<mapsto> e\<lparr>rl_count := min 5 (rl_count e + length (t # ts))\<rparr>))"
      unfolding ih idx using c5 Cons.prems(1) by (auto simp add: comp_def)
    finally show ?thesis .
  qed
qed

lemma POST_validate_rate_limited:
  assumes "\<not> (production env \<and> \<not> startsWith ''https://'' (url request))"
  shows "(status (fst (POST_validate env now request store)) = 429) =
           (\<not> allowed (fst (checkRateLimit now (getClientIP request) store)))"
    and "snd (POST_validate env now request store) =
           snd (checkRateLimit now (getClientIP request) store)"
    and "\<not> allowed (fst (checkRateLimit now (getClientIP request) store)) \<Longrightarrow>
         resp_resetTime (fst (POST_validate env now request store)) =
           Some (case resetTime (fst (checkRateLimit now (getClientIP request) store)) of
                   Some t \<Rightarrow> if t \<noteq> 0 then t else now | None \<Rightarrow> now)"
  using assms
  by (auto simp: POST_validate_def Let_def split: prod.splits json_body.splits)


lemma sample_ip: "getClientIP sampleRequest = ''203.0.113.7''"
  by code_simp

lemma sample_secure:
  "\<not> (production sampleValidationEnv \<and> \<not> startsWith ''https://'' (url sampleRequest))"
  by code_simp

lemma sample_valid:
  "validateInput (Some ''user@gmail.com'') (Some ''abcd efgh ijkl mnop'')
     = \<lparr>valid = True, v_error = None\<rparr>"
  by code_simp

text \<open>
  Claim C3, as the code has it. A client whose entry is absent or has expired makes an
  attempt at \<open>t0\<close> and further attempts at \<open>ts\<close>, none later than the end of the
  15-minute window that \<open>t0\<close> opened. Then attempt number \<open>i\<close> (from 0) is let through
  exactly when \<open>i < 5\<close>; the sixth and every later one is rejected and reports the reset
  time \<open>t0 + 15 min\<close>; the counter is the number of attempts up to 5 and stays at 5 when an
  attempt is rejected. The first hypothesis is also the case of the first attempt after a
  window has elapsed: it is let through and opens a new window. The endpoint answers 429
  exactly when the limiter rejects, with that reset time, and the store it leaves is the
  limiter's, whatever the later stages answer.
\<close>

theorem rate_limit_window:
  assumes fresh: "store ip = None \<or> (\<exists>e. store ip = Some e \<and> rl_resetTime e < t0)"
      and within: "\<forall>t\<in>set ts. t \<le> t0 + RATE_LIMIT_WINDOW"
  shows "attempts (t0 # ts) ip store =
     (map (\<lambda>i. \<lparr>allowed = (i < 5),
                resetTime = (if i < 5 then None else Some (t0 + RATE_LIMIT_WINDOW))\<rparr>)
          [0..<Suc (length ts)],
      store(ip \<mapsto> \<lparr>rl_count = min 5 (Suc (length ts)),
                    rl_resetTime = t0 + RATE_LIMIT_WINDOW\<rparr>))
   \<and> (\<forall>env now request st.
         \<not> (production env \<and> \<not> startsWith ''https://'' (url request)) \<longrightarrow>
           (status (fst (POST_validate env now request st)) = 429)
             = (\<not> allowed (fst (checkRateLimit now (getClientIP request) st)))
           \<and> snd (POST_validate env now request st)
               = snd (checkRateLimit now (getClientIP request) st)
           \<and> (\<not> allowed (fst (checkRateLimit now (getClientIP request) st)) \<longrightarrow>
                resp_resetTime (fst (POST_validate env now request st)) =
                  Some (case resetTime (fst (checkRateLimit now (getClientIP request) st)) of
                          Some t \<Rightarrow> if t \<noteq> 0 then t else now | None \<Rightarrow> now)))"
proof -
  let ?e = "\<lparr>rl_count = 1, rl_resetTime = t0 + RATE_LIMIT_WINDOW\<rparr>"
  let ?s = "store(ip \<mapsto> ?e)"
  have step: "checkRateLimit t0 ip store = (\<lparr>allowed = True, resetTime = None\<rparr>, ?s)"
    using fresh by (rule checkRateLimit_fresh)
  have rest: "attempts ts ip ?s =
     (map (\<lambda>i. \<lparr>allowed = (rl_count ?e + i < 5),
                resetTime = (if rl_count ?e + i < 5 then None else Some (rl_resetTime ?e))\<rparr>)
          [0..<length ts],
      ?s(ip \<mapsto> ?e\<lparr>rl_count := min 5 (rl_count ?e + length ts)\<rparr>))"
    using within by (intro attempts_in_window) auto
  have idx: "[0..<Suc (length ts)] = 0 # map Suc [0..<length ts]"
    by (simp add: upt_conv_Cons map_Suc_upt del: upt_Suc)
  have "attempts (t0 # ts) ip store =
      (\<lparr>allowed = True, resetTime = None\<rparr> # fst (attempts ts ip ?s), snd (attempts ts ip ?s))"
    by (simp add: step split: prod.splits)
  also have "\<dots> =
     (map (\<lambda>i. \<lparr>allowed = (i < 5),
                resetTime = (if i < 5 then None else Some (t0 + RATE_LIMIT_WINDOW))\<rparr>)
          [0..<Suc (length ts)],
      store(ip \<mapsto> \<lparr>rl_count = min 5 (Suc (length ts)),
                    rl_resetTime = t0 + RATE_LIMIT_WINDOW\<rparr>))"
    unfolding rest idx by (simp add: comp_def)
  finally have run: "attempts (t0 # ts) ip store =
     (map (\<lambda>i. \<lparr>allowed = (i < 5),
                resetTime = (if i < 5 then None else Some (t0 + RATE_LIMIT_WINDOW))\<rparr>)
          [0..<Suc (length ts)],
      store(ip \<mapsto> \<lparr>rl_count = min 5 (Suc (length ts)),
                    rl_resetTime = t0 + RATE_LIMIT_WINDOW\<rparr>))" .
  show ?thesis
    using run POST_validate_rate_limited by blast
qed


theorem rate_limit_window_witness:
  "attempts [0, 1, 2, 3, 4, 5, 900000] ''203.0.113.7'' Map.empty =
     ([\<lparr>allowed = True, resetTime = None\<rparr>, \<lparr>allowed = True, resetTime = None\<rparr>,
       \<lparr>allowed = True, resetTime = None\<rparr>, \<lparr>allowed = True, resetTime = None\<rparr>,
       \<lparr>allowed = True, resetTime = None\<rparr>,
       \<lparr>allowed = False, resetTime = Some 900000\<rparr>,
       \<lparr>allowed = False, resetTime = Some 900000\<rparr>],
      [''203.0.113.7'' \<mapsto> \<lparr>rl_count = 5, rl_resetTime = 900000\<rparr>])
   \<and> attempts [900001] ''203.0.113.7''
         [''203.0.113.7'' \<mapsto> \<lparr>rl_count = 5, rl_resetTime = 900000\<rparr>] =
     ([\<lparr>allowed = True, resetTime = None\<rparr>],
      [''203.0.113.7'' \<mapsto> \<lparr>rl_count = 1, rl_resetTime = 1800001\<rparr>])
   \<and> fst (POST_validate sampleValidationEnv 5 sampleRequest
           [''203.0.113.7'' \<mapsto> \<lparr>rl_count = 5, rl_resetTime = 900000\<rparr>])
       = \<lparr>status = 429, success = False,
          error = Some ''Too many validation attempts. Please try again later.'',
          message = None, resp_resetTime = Some 900000\<rparr>
   \<and> POST_validate sampleValidationEnv 900001 sampleRequest
         [''203.0.113.7'' \<mapsto> \<lparr>rl_count = 5, rl_resetTime = 900000\<rparr>]
       = (\<lparr>status = 200, success = True, error = None,
           message = Some ''Credentials validated successfully'', resp_resetTime = None\<rparr>,
          [''203.0.113.7'' \<mapsto> \<lparr>rl_count = 1, rl_resetTime = 1800001\<rparr>])"
proof -
  let ?ip = "''203.0.113.7''"
  let ?full = "[?ip \<mapsto> \<lparr>rl_count = 5, rl_resetTime = 900000\<rparr>]"
  have first: "attempts [0, 1, 2, 3, 4, 5, 900000] ?ip Map.empty =
     ([\<lparr>allowed = True, resetTime = None\<rparr>, \<lparr>allowed = True, resetTime = None\<rparr>,
       \<lparr>allowed = True, resetTime = None\<rparr>, \<lparr>allowed = True, resetTime = None\<rparr>,
       \<lparr>allowed = True, resetTime = None\<rparr>,
       \<lparr>allowed = False, resetTime = Some 900000\<rparr>,
       \<lparr>allowed = False, resetTime = Some 900000\<rparr>], ?full)"
    using rate_limit_window [of Map.empty ?ip 0 "[1, 2, 3, 4, 5, 900000]"]
    by (simp add: RATE_LIMIT_WINDOW_def upt_conv_Cons eval_nat_numeral del: attempts.simps)
  have after: "attempts [900001] ?ip ?full =
     ([\<lparr>allowed = True, resetTime = None\<rparr>],
      [?ip \<mapsto> \<lparr>rl_count = 1, rl_resetTime = 1800001\<rparr>])"
    using rate_limit_window [of ?full ?ip 900001 "[]"]
    by (simp add: RATE_LIMIT_WINDOW_def del: attempts.simps)
  have rejected: "checkRateLimit 5 ?ip ?full
      = (\<lparr>allowed = False, resetTime = Some 900000\<rparr>, ?full)"
    by (simp add: checkRateLimit_def RATE_LIMIT_MAX_ATTEMPTS_def)
  have let_through: "checkRateLimit 900001 ?ip ?full
      = (\<lparr>allowed = True, resetTime = None\<rparr>,
         [?ip \<mapsto> \<lparr>rl_count = 1, rl_resetTime = 1800001\<rparr>])"
    by (simp add: checkRateLimit_def RATE_LIMIT_WINDOW_def)
  have clean: "toLowerCase (trim ''user@gmail.com'') = ''user@gmail.com''"
      "stripWhitespace ''abcd efgh ijkl mnop'' = ''abcdefghijklmnop''"
    by code_simp+
  have too_many: "fst (POST_validate sampleValidationEnv 5 sampleRequest ?full)
       = \<lparr>status = 429, success = False,
          error = Some ''Too many validation attempts. Please try again later.'',
          message = None, resp_resetTime = Some 900000\<rparr>"
    using sample_secure by (simp add: POST_validate_def sample_ip rejected)
  have again: "POST_validate sampleValidationEnv 900001 sampleRequest ?full
       = (\<lparr>status = 200, success = True, error = None,
           message = Some ''Credentials validated successfully'', resp_resetTime = None\<rparr>,
          [?ip \<mapsto> \<lparr>rl_count = 1, rl_resetTime = 1800001\<rparr>])"
    using sample_secure
    by (simp add: POST_validate_def sample_ip let_through sample_valid clean
        testEmailConnection_def)
       (simp add: sampleRequest_def sampleValidationEnv_def sample_valid clean
          testEmailConnection_def)
  show ?thesis
    using first after too_many again by simp
qed

text \<open>
  The claim as stated has the counter grow on rejected attempts too. After five attempts
  the counter is 5; the sixth is rejected and leaves it at 5.
\<close>

theorem rate_limit_counterexample:
  "(let ip = ''203.0.113.7'';
        s5 = snd (attempts [0, 1, 2, 3, 4] ip Map.empty);
        (r, s6) = checkRateLimit 5 ip s5
    in \<not> allowed r \<and> map_option rl_count (s5 ip) = Some 5 \<and> map_option rl_count (s6 ip) = Some 5)"
  by (simp add: checkRateLimit_def RATE_LIMIT_WINDOW_def RATE_LIMIT_MAX_ATTEMPTS_def)


subsection \<open>Format validation\<close>

lemma encryptCredentials_rejects:
  assumes "\<not> rx_test emailRegex (trim address)
           \<or> length (stripWhitespace p) \<noteq> 16 \<or> \<not> list_all isAlnum (stripWhitespace p)"
  shows "\<exists>e. encryptCredentials env ta tb r_salt r_iv r_pw address p st = Inl (Error e)"
  using assms
  by (auto simp: encryptCredentials_def Let_def alnumRegex_def rx_test_Plus_Cls)

lemma encryptCredentials_accepts:
  assumes "rx_test emailRegex (trim address)"
      and "length (stripWhitespace p) = 16" and "list_all isAlnum (stripWhitespace p)"
      and "crypto_available env" and "\<not> storage_blocked env"
  shows "\<exists>password.
           generateSessionPassword env r_pw = Inr password
           \<and> encryptCredentials env ta tb r_salt r_iv r_pw address p st =
             Inr (st(STORAGE_KEY env \<mapsto> Envelope
                \<lparr>encryptedData = Sealed (DerivedKey password r_salt) r_iv
                    \<lparr>cred_email = toLowerCase (trim address),
                     cred_appPassword = stripWhitespace p, cred_timestamp = ta\<rparr>,
                  iv = r_iv, salt = r_salt, stored_timestamp = tb\<rparr>))"
proof -
  from assms(2) have ne: "p \<noteq> []" "stripWhitespace p \<noteq> []"
    by (auto simp: stripWhitespace_def)
  from assms(1) have ae: "address \<noteq> []"
    by (cases address) (auto simp: trim_def rx_test_def emailRegex_def Plus_def)
  show ?thesis
    using assms ne ae
    by (simp add: encryptCredentials_def Let_def alnumRegex_def rx_test_Plus_Cls
        getSecureRandom_def generateSessionPassword_def setItem_def deriveKey_def
        aes_gcm_encrypt_def)
qed

text \<open>
  Claim C8. Both validators (the endpoint's \<open>validateInput\<close> and the check at the head of
  \<open>encryptCredentials\<close>) reject a secret whose form without whitespace is not 16 characters
  long (so one of 15 or 17), or holds a character outside \<open>[a-zA-Z0-9]\<close>, whatever the
  address; both reject \<open>user@notgmail.org\<close> whatever the secret; both accept
  \<open>user@gmail.com\<close> and \<open>student@college.edu.in\<close> with every secret that is 16
  alphanumeric characters once whitespace is removed (the vault then stores an envelope,
  provided the browser gives random bytes and access to the storage).
\<close>

theorem format_validation:
  "(length (stripWhitespace p) \<noteq> 16 \<or> \<not> list_all isAlnum (stripWhitespace p)
      \<longrightarrow> \<not> valid (validateInput email (Some p))
        \<and> (\<exists>e. encryptCredentials env ta tb r_salt r_iv r_pw address p st = Inl (Error e)))
   \<and> \<not> valid (validateInput (Some ''user@notgmail.org'') appPassword)
   \<and> (\<exists>e. encryptCredentials env ta tb r_salt r_iv r_pw ''user@notgmail.org'' p st
            = Inl (Error e))
   \<and> (length (stripWhitespace p) = 16 \<and> list_all isAlnum (stripWhitespace p)
      \<longrightarrow> validateInput (Some ''user@gmail.com'') (Some p) = \<lparr>valid = True, v_error = None\<rparr>
        \<and> validateInput (Some ''student@college.edu.in'') (Some p) = \<lparr>valid = True, v_error = None\<rparr>
        \<and> (crypto_available env \<and> \<not> storage_blocked env \<longrightarrow>
             (\<exists>st'. encryptCredentials env ta tb r_salt r_iv r_pw ''user@gmail.com'' p st
                      = Inr st')
           \<and> (\<exists>st'. encryptCredentials env ta tb r_salt r_iv r_pw ''student@college.edu.in'' p st
                      = Inr st')))"
proof (intro conjI impI)
  assume bad: "length (stripWhitespace p) \<noteq> 16 \<or> \<not> list_all isAlnum (stripWhitespace p)"
  then show "\<not> valid (validateInput email (Some p))"
    by (auto simp: validateInput_valid_iff)
  show "\<exists>e. encryptCredentials env ta tb r_salt r_iv r_pw address p st = Inl (Error e)"
    using bad by (intro encryptCredentials_rejects) blast
next
  show "\<not> valid (validateInput (Some ''user@notgmail.org'') appPassword)"
    using org_address_rejected by (simp add: validateInput_valid_iff)
next
  show "\<exists>e. encryptCredentials env ta tb r_salt r_iv r_pw ''user@notgmail.org'' p st
            = Inl (Error e)"
    using org_address_rejected by (intro encryptCredentials_rejects) blast
next
  assume ok: "length (stripWhitespace p) = 16 \<and> list_all isAlnum (stripWhitespace p)"
  then have ne: "p \<noteq> []" by (auto simp: stripWhitespace_def)
  from ok have ne2: "stripWhitespace p \<noteq> []" by auto
  show "validateInput (Some ''user@gmail.com'') (Some p) = \<lparr>valid = True, v_error = None\<rparr>"
    using ok ne ne2 gmail_address_ok
    by (simp add: validateInput_def Let_def alnumRegex_def rx_test_Plus_Cls)
  show "validateInput (Some ''student@college.edu.in'') (Some p) = \<lparr>valid = True, v_error = None\<rparr>"
    using ok ne ne2 edu_address_ok
    by (simp add: validateInput_def Let_def alnumRegex_def rx_test_Plus_Cls)
next
  assume ok: "length (stripWhitespace p) = 16 \<and> list_all isAlnum (stripWhitespace p)"
     and up: "crypto_available env \<and> \<not> storage_blocked env"
  show "\<exists>st'. encryptCredentials env ta tb r_salt r_iv r_pw ''user@gmail.com'' p st = Inr st'"
    using encryptCredentials_accepts [of "''user@gmail.com''" p env r_pw ta tb r_salt r_iv st]
      ok up gmail_address_ok by blast
  show "\<exists>st'. encryptCredentials env ta tb r_salt r_iv r_pw ''student@college.edu.in'' p st
          = Inr st'"
    using encryptCredentials_accepts [of "''student@college.edu.in''" p env r_pw ta tb r_salt r_iv st]
      ok up edu_address_ok by blast
qed

theorem format_validation_witness:
  "\<not> valid (validateInput (Some ''user@gmail.com'') (Some ''abcd efgh ijkl mno''))
   \<and> \<not> valid (validateInput (Some ''user@gmail.com'') (Some ''abcd efgh ijkl mnop q''))
   \<and> \<not> valid (validateInput (Some ''user@gmail.com'') (Some ''abcd-efgh-ijkl-m''))
   \<and> valid (validateInput (Some ''user@gmail.com'') (Some ''abcd efgh ijkl mnop''))
   \<and> valid (validateInput (Some ''student@college.edu.in'') (Some ''ABCD1234efgh5678''))
   \<and> (\<exists>st'. encryptCredentials sampleBrowserEnv 1000 1001 (replicate 32 7) (replicate 12 9)
               (replicate 32 0) ''student@college.edu.in'' ''ABCD1234efgh5678'' Map.empty
             = Inr st')
   \<and> (\<exists>e. encryptCredentials sampleBrowserEnv 1000 1001 (replicate 32 7) (replicate 12 9)
               (replicate 32 0) ''user@gmail.com'' ''abcd efgh ijkl mno'' Map.empty
             = Inl (Error e))"
proof -
  have a: "length (stripWhitespace ''abcd efgh ijkl mno'') \<noteq> 16" by code_simp
  have b: "length (stripWhitespace ''abcd efgh ijkl mnop q'') \<noteq> 16" by code_simp
  have c: "\<not> list_all isAlnum (stripWhitespace ''abcd-efgh-ijkl-m'')" by code_simp
  have d: "length (stripWhitespace ''abcd efgh ijkl mnop'') = 16
             \<and> list_all isAlnum (stripWhitespace ''abcd efgh ijkl mnop'')" by code_simp
  have e: "length (stripWhitespace ''ABCD1234efgh5678'') = 16
             \<and> list_all isAlnum (stripWhitespace ''ABCD1234efgh5678'')" by code_simp
  have up: "crypto_available sampleBrowserEnv \<and> \<not> storage_blocked sampleBrowserEnv"
    by (simp add: sampleBrowserEnv_def)
  show ?thesis
    using a b c d e up
      format_validation [where p = "''abcd efgh ijkl mno''" and email = "Some ''user@gmail.com''"
        and env = sampleBrowserEnv and ta = 1000 and tb = 1001 and r_salt = "replicate 32 7"
        and r_iv = "replicate 12 9" and r_pw = "replicate 32 0" and address = "''user@gmail.com''"
        and st = Map.empty]
      format_validation [where p = "''abcd efgh ijkl mnop q''" and email = "Some ''user@gmail.com''"]
      format_validation [where p = "''abcd-efgh-ijkl-m''" and email = "Some ''user@gmail.com''"]
      format_validation [where p = "''abcd efgh ijkl mnop''"]
      format_validation [where p = "''ABCD1234efgh5678''" and env = sampleBrowserEnv and ta = 1000
        and tb = 1001 and r_salt = "replicate 32 7" and r_iv = "replicate 12 9"
        and r_pw = "replicate 32 0" and st = Map.empty]
    by simp
qed

subsection \<open>The vault\<close>

lemma cleared_eq:
  "cleared env st = (if storage_blocked env then st else st(STORAGE_KEY env := None))"
  by (simp add: cleared_def clearCredentials_def removeItem_def)

lemma decryptCredentials_never_raises:
  "\<exists>r st'. decryptCredentials env now1 now2 r_pw st = Inr (r, st')"
  by (cases "decryptCredentials_try env now1 now2 r_pw st")
     (auto simp: decryptCredentials_def)

text \<open>
  Claim C7. \<open>decryptCredentials\<close> never raises: it returns a Credential or nothing. It
  returns nothing, leaving the storage as it is, when no envelope is stored (nothing, or
  the empty string) or the storage cannot be read at all. It returns nothing and removes
  the stored item when the item is malformed, when more than an hour has passed since the envelope's timestamp,
  when the session password cannot be made, when authenticated decryption fails, and when
  more than an hour has passed since the timestamp inside the decrypted Credential. In
  the one remaining case it returns the decrypted Credential and leaves the storage as it
  is.
\<close>

theorem retrieve_outcomes:
  "(\<exists>r st'. decryptCredentials env t_read t_check r_pw st = Inr (r, st'))
   \<and> (storage_blocked env \<longrightarrow> decryptCredentials env t_read t_check r_pw st = Inr (None, st))
   \<and> (\<not> storage_blocked env \<and> st (STORAGE_KEY env) = None \<longrightarrow>
        decryptCredentials env t_read t_check r_pw st = Inr (None, st))
   \<and> (\<not> storage_blocked env \<and> st (STORAGE_KEY env) = Some (Malformed []) \<longrightarrow>
        decryptCredentials env t_read t_check r_pw st = Inr (None, st))
   \<and> (\<not> storage_blocked env \<and> st (STORAGE_KEY env) = Some (Malformed raw) \<and> raw \<noteq> [] \<longrightarrow>
        decryptCredentials env t_read t_check r_pw st = Inr (None, st(STORAGE_KEY env := None)))
   \<and> (\<not> storage_blocked env \<and> st (STORAGE_KEY env) = Some (Envelope parsed)
        \<and> t_read - stored_timestamp parsed > SESSION_TIMEOUT \<longrightarrow>
        decryptCredentials env t_read t_check r_pw st = Inr (None, st(STORAGE_KEY env := None)))
   \<and> (\<not> storage_blocked env \<and> st (STORAGE_KEY env) = Some (Envelope parsed)
        \<and> t_read - stored_timestamp parsed \<le> SESSION_TIMEOUT
        \<and> generateSessionPassword env r_pw = Inl e_pw \<longrightarrow>
        decryptCredentials env t_read t_check r_pw st = Inr (None, st(STORAGE_KEY env := None)))
   \<and> (\<not> storage_blocked env \<and> st (STORAGE_KEY env) = Some (Envelope parsed)
        \<and> t_read - stored_timestamp parsed \<le> SESSION_TIMEOUT
        \<and> generateSessionPassword env r_pw = Inr password
        \<and> aes_gcm_decrypt (deriveKey password (salt parsed)) (iv parsed) (encryptedData parsed)
            = Inl e_dec \<longrightarrow>
        decryptCredentials env t_read t_check r_pw st = Inr (None, st(STORAGE_KEY env := None)))
   \<and> (\<not> storage_blocked env \<and> st (STORAGE_KEY env) = Some (Envelope parsed)
        \<and> t_read - stored_timestamp parsed \<le> SESSION_TIMEOUT
        \<and> generateSessionPassword env r_pw = Inr password
        \<and> aes_gcm_decrypt (deriveKey password (salt parsed)) (iv parsed) (encryptedData parsed)
            = Inr credentials
        \<and> t_check - cred_timestamp credentials > SESSION_TIMEOUT \<longrightarrow>
        decryptCredentials env t_read t_check r_pw st = Inr (None, st(STORAGE_KEY env := None)))
   \<and> (\<not> storage_blocked env \<and> st (STORAGE_KEY env) = Some (Envelope parsed)
        \<and> t_read - stored_timestamp parsed \<le> SESSION_TIMEOUT
        \<and> generateSessionPassword env r_pw = Inr password
        \<and> aes_gcm_decrypt (deriveKey password (salt parsed)) (iv parsed) (encryptedData parsed)
            = Inr credentials
        \<and> t_check - cred_timestamp credentials \<le> SESSION_TIMEOUT \<longrightarrow>
        decryptCredentials env t_read t_check r_pw st = Inr (Some credentials, st))"
proof -
  have total: "\<exists>r st'. decryptCredentials env t_read t_check r_pw st = Inr (r, st')"
    by (rule decryptCredentials_never_raises)
  have rest: "decryptCredentials env t_read t_check r_pw st =
     (if storage_blocked env then Inr (None, st)
      else case st (STORAGE_KEY env) of
             None \<Rightarrow> Inr (None, st)
           | Some (Malformed raw) \<Rightarrow>
               if raw = [] then Inr (None, st) else Inr (None, st(STORAGE_KEY env := None))
           | Some (Envelope parsed) \<Rightarrow>
               if t_read - stored_timestamp parsed > SESSION_TIMEOUT
               then Inr (None, st(STORAGE_KEY env := None))
               else (case generateSessionPassword env r_pw of
                       Inl e \<Rightarrow> Inr (None, st(STORAGE_KEY env := None))
                     | Inr password \<Rightarrow>
                         (case aes_gcm_decrypt (deriveKey password (salt parsed)) (iv parsed)
                                 (encryptedData parsed) of
                            Inl e \<Rightarrow> Inr (None, st(STORAGE_KEY env := None))
                          | Inr credentials \<Rightarrow>
                              if t_check - cred_timestamp credentials > SESSION_TIMEOUT
                              then Inr (None, st(STORAGE_KEY env := None))
                              else Inr (Some credentials, st))))"
    by (simp add: decryptCredentials_def decryptCredentials_try_def getItem_def cleared_eq Let_def
        split: option.splits storage_item.splits sum.splits)
  show ?thesis
    using total by (simp add: rest)
qed


theorem retrieve_outcomes_witness:
  "(let env = sampleBrowserEnv;
        forged = \<lparr>encryptedData = Forged [1, 2, 3], iv = replicate 12 0, salt = replicate 32 0,
                  stored_timestamp = 1000\<rparr>
    in decryptCredentials env 2000 2001 (replicate 32 7) Map.empty = Inr (None, Map.empty)
       \<and> decryptCredentials env 2000 2001 (replicate 32 7) [STORAGE_KEY env \<mapsto> Malformed ''{'']
           = Inr (None, Map.empty)
       \<and> decryptCredentials env 3601001 3601002 (replicate 32 7) [STORAGE_KEY env \<mapsto> Envelope forged]
           = Inr (None, Map.empty)
       \<and> decryptCredentials env 2000 2001 (replicate 32 7) [STORAGE_KEY env \<mapsto> Envelope forged]
           = Inr (None, Map.empty))"
proof -
  let ?env = sampleBrowserEnv
  let ?forged = "\<lparr>encryptedData = Forged [1, 2, 3], iv = replicate 12 0, salt = replicate 32 0,
                  stored_timestamp = 1000\<rparr>"
  have nb: "\<not> storage_blocked ?env"
    by (simp add: sampleBrowserEnv_def)
  obtain password where pw: "generateSessionPassword ?env (replicate 32 7) = Inr password"
    by (simp add: generateSessionPassword_def getSecureRandom_def sampleBrowserEnv_def)
  have bad: "aes_gcm_decrypt (deriveKey password (salt ?forged)) (iv ?forged) (encryptedData ?forged)
      = Inl (Error ''OperationError'')"
    by (simp add: aes_gcm_decrypt_def)
  have late: "3601001 - stored_timestamp ?forged > SESSION_TIMEOUT"
    by (simp add: SESSION_TIMEOUT_def)
  have early: "2000 - stored_timestamp ?forged \<le> SESSION_TIMEOUT"
    by (simp add: SESSION_TIMEOUT_def)
  show ?thesis
    using nb pw bad late early
      retrieve_outcomes [where env = ?env and st = Map.empty and t_read = 2000 and t_check = 2001
        and r_pw = "replicate 32 7"]
      retrieve_outcomes [where env = ?env and st = "[STORAGE_KEY ?env \<mapsto> Malformed ''{'']"
        and raw = "''{''" and t_read = 2000 and t_check = 2001 and r_pw = "replicate 32 7"]
      retrieve_outcomes [where env = ?env and st = "[STORAGE_KEY ?env \<mapsto> Envelope ?forged]"
        and parsed = ?forged and t_read = 3601001 and t_check = 3601002 and r_pw = "replicate 32 7"]
      retrieve_outcomes [where env = ?env and st = "[STORAGE_KEY ?env \<mapsto> Envelope ?forged]"
        and parsed = ?forged and t_read = 2000 and t_check = 2001 and r_pw = "replicate 32 7"
        and password = password and e_dec = "Error ''OperationError''"]
    by (simp add: Let_def)
qed

text \<open>
  The round trip. \<open>generateSessionPassword\<close> draws fresh random bytes on every call and
  keeps the first 32 characters of the Base64 form of the fingerprint followed by those
  bytes. Thirty-two Base64 characters encode 24 characters of input, so when the
  fingerprint has at least 24 characters the password is the same on every call and the
  round trip holds.
\<close>

lemma btoa_bytes_prefix:
  "3 * n \<le> length xs \<Longrightarrow> take (4 * n) (btoa_bytes (xs @ ys)) = btoa_bytes (take (3 * n) xs)"
proof (induction n arbitrary: xs)
  case 0
  show ?case by simp
next
  case (Suc n)
  then obtain a b c rest where xs: "xs = a # b # c # rest"
    by (cases xs; cases "tl xs"; cases "tl (tl xs)") auto
  with Suc.prems have "3 * n \<le> length rest" by simp
  then have ih: "take (4 * n) (btoa_bytes (rest @ ys)) = btoa_bytes (take (3 * n) rest)"
    by (rule Suc.IH)
  have four: "4 * Suc n = Suc (Suc (Suc (Suc (4 * n))))"
    and three: "3 * Suc n = Suc (Suc (Suc (3 * n)))"
    by simp_all
  show ?case
    unfolding four three xs using ih by simp
qed

lemma generateSessionPassword_long_fingerprint:
  assumes "24 \<le> length (browserFingerprint env)"
  shows "generateSessionPassword env drawn =
     (if crypto_available env
      then Inr (btoa_bytes (take 24 (map of_char (browserFingerprint env))))
      else Inl (Error ''Secure random number generation not available''))"
proof -
  have "3 * 8 \<le> length (map of_char (browserFingerprint env) :: nat list)"
    using assms by simp
  then have "take (4 * 8) (btoa_bytes (map of_char (browserFingerprint env)
                @ map of_char (concat (map decimal drawn))))
      = btoa_bytes (take (3 * 8) (map of_char (browserFingerprint env)))"
    by (rule btoa_bytes_prefix)
  then show ?thesis
    by (simp add: generateSessionPassword_def getSecureRandom_def btoa_def Let_def)
qed

lemma vault_round_trip_long_fingerprint:
  assumes fp: "24 \<le> length (browserFingerprint env)"
      and stored: "encryptCredentials env t1 t2 r_salt r_iv r_pw email appPassword st = Inr st'"
      and window: "t3 - t2 \<le> SESSION_TIMEOUT" "t4 - t1 \<le> SESSION_TIMEOUT"
  shows "decryptCredentials env t3 t4 r_pw' st' =
           Inr (Some \<lparr>cred_email = toLowerCase (trim email),
                      cred_appPassword = stripWhitespace appPassword,
                      cred_timestamp = t1\<rparr>, st')"
proof -
  from stored have avail: "crypto_available env" and open': "\<not> storage_blocked env"
    by (auto simp: encryptCredentials_def Let_def getSecureRandom_def generateSessionPassword_def
          setItem_def split: if_splits sum.splits)
  let ?pw = "btoa_bytes (take 24 (map of_char (browserFingerprint env)))"
  let ?cred = "\<lparr>cred_email = toLowerCase (trim email),
                 cred_appPassword = stripWhitespace appPassword, cred_timestamp = t1\<rparr>"
  have st': "st' = st(STORAGE_KEY env \<mapsto>
      Envelope \<lparr>encryptedData = Sealed (DerivedKey ?pw r_salt) r_iv ?cred, iv = r_iv,
                salt = r_salt, stored_timestamp = t2\<rparr>)"
    using stored avail open'
    by (auto simp: encryptCredentials_def Let_def getSecureRandom_def
          generateSessionPassword_long_fingerprint [OF fp] setItem_def deriveKey_def
          aes_gcm_encrypt_def split: if_splits)
  show ?thesis
    using avail open' window
    by (simp add: st' decryptCredentials_def decryptCredentials_try_def getItem_def Let_def
        generateSessionPassword_long_fingerprint [OF fp] deriveKey_def aes_gcm_decrypt_def)
qed

lemma short_fingerprint:
  "browserFingerprint shortFingerprintEnv = ''x|en|800x600|0|http://x''"
  by code_simp



subsection \<open>Sequential dispatch\<close>

lemma sendBulkCertificates_by_mode:
  "sendBulkCertificates env pooled recipients provider sendingMode credentials tr =
     (case selectedMode sendingMode provider (length recipients) of
        Pooled \<Rightarrow>
          (case credentials of
             None \<Rightarrow> (Inl (Error ''Gmail credentials required for pooled sending''), tr)
           | Some c \<Rightarrow> pooled recipients c tr)
      | Sequential \<Rightarrow>
          (let (results, tr') = sequentialLoop env provider credentials recipients tr
           in (Inr results, tr')))"
proof (cases "shouldUsePooled sendingMode provider (length recipients) \<and> provider = Gmail")
  case True
  then have m: "selectedMode sendingMode provider (length recipients) = Pooled"
    by (auto simp: selectedMode_def)
  from True have "sendBulkCertificates env pooled recipients provider sendingMode credentials tr
      = (case credentials of
           None \<Rightarrow> (Inl (Error ''Gmail credentials required for pooled sending''), tr)
         | Some c \<Rightarrow> pooled recipients c tr)"
    unfolding sendBulkCertificates_def by (rule if_P)
  then show ?thesis
    by (simp only: m SendingMode.case)
next
  case False
  then have m: "selectedMode sendingMode provider (length recipients) = Sequential"
    by (auto simp: selectedMode_def)
  from False have "sendBulkCertificates env pooled recipients provider sendingMode credentials tr
      = (let (results, tr') = sequentialLoop env provider credentials recipients tr
         in (Inr results, tr'))"
    unfolding sendBulkCertificates_def by (rule if_not_P)
  then show ?thesis
    by (simp only: m SendingMode.case)
qed

lemma selectedMode_table:
  "selectedMode sendingMode provider n =
     (case provider of
        Resend \<Rightarrow> Sequential
      | Gmail \<Rightarrow> (case sendingMode of
                    Some m \<Rightarrow> m
                  | None \<Rightarrow> if 50 \<le> n then Pooled else Sequential))"
  by (cases provider; cases sendingMode; cases "the sendingMode")
     (auto simp: selectedMode_def shouldUsePooled_def)







subsection \<open>Strategy selection\<close>

text \<open>
  Claim C6, as the code has it. The hosted backend always takes the sequential branch,
  also under the override \<open>pooled\<close>. The direct backend takes the override when one is
  given, and otherwise the pooled branch exactly from 50 recipients on: 49 select
  sequential, 50 select pooled, 10 with the override \<open>pooled\<close> select pooled. The branch
  selected is the one \<open>sendBulkCertificates\<close> runs.
\<close>

theorem strategy_selection:
  "selectedMode sendingMode provider n =
     (case provider of
        Resend \<Rightarrow> Sequential
      | Gmail \<Rightarrow> (case sendingMode of
                    Some m \<Rightarrow> m
                  | None \<Rightarrow> if 50 \<le> n then Pooled else Sequential))
   \<and> selectedMode None Gmail 49 = Sequential
   \<and> selectedMode None Gmail 50 = Pooled
   \<and> selectedMode (Some Pooled) Gmail 10 = Pooled
   \<and> (selectedMode sendingMode provider (length recipients) = Pooled \<longrightarrow>
        sendBulkCertificates env pooled recipients provider sendingMode (Some c) tr
          = pooled recipients c tr)
   \<and> (selectedMode sendingMode provider (length recipients) = Sequential \<longrightarrow>
        sendBulkCertificates env pooled recipients provider sendingMode credentials tr
          = (Inr (fst (sequentialLoop env provider credentials recipients tr)),
             snd (sequentialLoop env provider credentials recipients tr)))"
  by (simp add: selectedMode_table sendBulkCertificates_by_mode split: prod.splits)

theorem strategy_selection_witness:
  "sendBulkCertificates (sampleMailEnv (\<lambda>p. True)) noPooled
       (replicate 50 (sampleRecipient ''a@gmail.com'')) Gmail None
       (Some \<lparr>auth_email = ''sender@gmail.com'', auth_appPassword = ''abcdefghijklmnop''\<rparr>) []
     = (Inr [], [])
   \<and> fst (sendBulkCertificates (sampleMailEnv (\<lambda>p. True)) noPooled
       [sampleRecipient ''a@example.org''] Resend (Some Pooled) None [])
     = Inr [\<lparr>d_email = ''a@example.org'', d_success = True, d_messageId = Some ''re_1'',
              d_error = None, d_provider = ''resend''\<rparr>]"
proof -
  have p: "selectedMode None Gmail (length (replicate 50 (sampleRecipient ''a@gmail.com''))) = Pooled"
    by (simp add: selectedMode_def shouldUsePooled_def)
  have q: "selectedMode (Some Pooled) Resend (length [sampleRecipient ''a@example.org'']) = Sequential"
    by (simp add: selectedMode_def)
  have r: "fst (sequentialLoop (sampleMailEnv (\<lambda>p. True)) Resend None [sampleRecipient ''a@example.org''] [])
     = [\<lparr>d_email = ''a@example.org'', d_success = True, d_messageId = Some ''re_1'',
              d_error = None, d_provider = ''resend''\<rparr>]"
    by (simp add: sampleMailEnv_def sampleRecipient_def sendCertificateEmail_def
        sendCertificateEmail_try_def resendMail_def withEmail_def)
  show ?thesis
    using p q r
      strategy_selection [of None Gmail 50 "replicate 50 (sampleRecipient ''a@gmail.com'')"
        "sampleMailEnv (\<lambda>p. True)" noPooled
        "\<lparr>auth_email = ''sender@gmail.com'', auth_appPassword = ''abcdefghijklmnop''\<rparr>" "[]" None]
      strategy_selection [of "Some Pooled" Resend 1 "[sampleRecipient ''a@example.org'']"
        "sampleMailEnv (\<lambda>p. True)" noPooled
        "\<lparr>auth_email = ''sender@gmail.com'', auth_appPassword = ''abcdefghijklmnop''\<rparr>" "[]" None]
    by (simp add: noPooled_def)
qed


text \<open>
  The claim as stated has every override used. With the hosted backend the override
  \<open>pooled\<close> is not: the batch is sent sequentially.
\<close>

theorem strategy_selection_counterexample:
  "selectedMode (Some Pooled) Resend 10 = Sequential
   \<and> selectedMode (Some Pooled) Resend 10 \<noteq> Pooled"
  by (simp add: selectedMode_def)

subsection \<open>Missing credentials\<close>

lemma sequentialLoop_no_credentials:
  "sequentialLoop env Gmail None recipients tr =
     (map (\<lambda>r. missingCredentials (r_email r)) recipients,
      tr @ concat (map (\<lambda>r. [LogSending Gmail (r_email r), LogResolved (r_email r) False,
                              Timeout 500]) recipients))"
  by (induction recipients arbitrary: tr)
     (simp_all add: sendCertificateEmail_def sendCertificateEmail_try_def withEmail_def
        missingCredentials_def providerName_def errorMessage_def)


text \<open>
  Claim C2, as the code has it. With the direct backend and no credential, the pooled
  strategy throws before anything is sent or logged. The sequential strategy does not
  fail: it goes through the recipients, each send returns the failure
  \<open>Gmail credentials required but not provided\<close> without a call of the transport, each is
  followed by the wait, and the batch returns one failed result per recipient.
\<close>

theorem credentials_required:
  "(selectedMode sendingMode Gmail (length recipients) = Pooled \<longrightarrow>
      sendBulkCertificates env pooled recipients Gmail sendingMode None tr
        = (Inl (Error ''Gmail credentials required for pooled sending''), tr))
   \<and> (selectedMode sendingMode Gmail (length recipients) = Sequential \<longrightarrow>
      sendBulkCertificates env pooled recipients Gmail sendingMode None tr
        = (Inr (map (\<lambda>r. missingCredentials (r_email r)) recipients),
           tr @ concat (map (\<lambda>r. [LogSending Gmail (r_email r), LogResolved (r_email r) False,
                                   Timeout 500]) recipients)))"
  by (simp add: sendBulkCertificates_by_mode sequentialLoop_no_credentials)

theorem credentials_required_witness:
  "sendBulkCertificates (sampleMailEnv (\<lambda>p. True)) noPooled
       [sampleRecipient ''a@example.org'', sampleRecipient ''b@example.org''] Gmail (Some Pooled) None []
     = (Inl (Error ''Gmail credentials required for pooled sending''), [])
   \<and> sendBulkCertificates (sampleMailEnv (\<lambda>p. True)) noPooled
       [sampleRecipient ''a@example.org'', sampleRecipient ''b@example.org''] Gmail None None []
     = (Inr [missingCredentials ''a@example.org'', missingCredentials ''b@example.org''],
        [LogSending Gmail ''a@example.org'', LogResolved ''a@example.org'' False, Timeout 500,
         LogSending Gmail ''b@example.org'', LogResolved ''b@example.org'' False, Timeout 500])"
proof -
  let ?rs = "[sampleRecipient ''a@example.org'', sampleRecipient ''b@example.org'']"
  have p: "selectedMode (Some Pooled) Gmail (length ?rs) = Pooled"
    by (simp add: selectedMode_def shouldUsePooled_def)
  have q: "selectedMode None Gmail (length ?rs) = Sequential"
    by (simp add: selectedMode_def shouldUsePooled_def)
  show ?thesis
    using p q
      credentials_required [of "Some Pooled" ?rs "sampleMailEnv (\<lambda>p. True)" noPooled "[]"]
      credentials_required [of None ?rs "sampleMailEnv (\<lambda>p. True)" noPooled "[]"]
    by (simp add: sampleRecipient_def)
qed


text \<open>
  The claim as stated has the sequential strategy fail before any recipient is attempted.
  With one recipient the batch returns normally, after the attempt and the wait.
\<close>

theorem credentials_required_counterexample:
  "sendBulkCertificates (sampleMailEnv (\<lambda>p. True)) noPooled
       [sampleRecipient ''a@example.org''] Gmail None None []
     = (Inr [\<lparr>d_email = ''a@example.org'', d_success = False, d_messageId = None,
               d_error = Some ''Gmail credentials required but not provided'',
               d_provider = ''gmail''\<rparr>],
        [LogSending Gmail ''a@example.org'', LogResolved ''a@example.org'' False, Timeout 500])"
  by (simp add: sendBulkCertificates_by_mode selectedMode_def shouldUsePooled_def
      sampleRecipient_def sendCertificateEmail_def sendCertificateEmail_try_def withEmail_def
      providerName_def errorMessage_def)


subsection \<open>The batch endpoint's answer\<close>













subsection \<open>The logo\<close>







subsection \<open>Pooled dispatch\<close>

lemma batch_invI:
  assumes "mset (map d_email (results b)) + mset (map r_email (inflight b))
        + mset (map r_email (queuedRecipients b)) = mset (map r_email (b_recipients b))"
    and "mset (calls b) + mset (map (pooledMail (b_credentials b)) (queuedRecipients b))
          = mset (map (pooledMail (b_credentials b)) (b_recipients b))"
    and "sentCount b = length (results b)"
    and "resolved b \<noteq> None \<longrightarrow>
            resolved b = Some (results b) \<and> sentCount b = length (b_recipients b)"
  shows "batch_inv b"
  unfolding batch_inv_def using assms by blast

lemma batch_inv_emails:
  "batch_inv b \<Longrightarrow>
   mset (map d_email (results b)) + mset (map r_email (inflight b))
        + mset (map r_email (queuedRecipients b)) = mset (map r_email (b_recipients b))"
  unfolding batch_inv_def by blast

lemma batch_inv_calls:
  "batch_inv b \<Longrightarrow>
   mset (calls b) + mset (map (pooledMail (b_credentials b)) (queuedRecipients b))
          = mset (map (pooledMail (b_credentials b)) (b_recipients b))"
  unfolding batch_inv_def by blast

lemma batch_inv_count:
  "batch_inv b \<Longrightarrow> sentCount b = length (results b)"
  unfolding batch_inv_def by blast

lemma batch_inv_resolved:
  "batch_inv b \<Longrightarrow> resolved b \<noteq> None \<Longrightarrow>
   resolved b = Some (results b) \<and> sentCount b = length (b_recipients b)"
  unfolding batch_inv_def by blast

lemma batch_inv_sizes:
  assumes "batch_inv b"
  shows "length (results b) + length (inflight b) + length (queuedRecipients b)
           = length (b_recipients b)"
proof -
  have "size (mset (map d_email (results b)) + mset (map r_email (inflight b))
        + mset (map r_email (queuedRecipients b))) = size (mset (map r_email (b_recipients b)))"
    using batch_inv_emails [OF assms] by (rule arg_cong)
  then show ?thesis by simp
qed

lemma batch_inv_done:
  assumes "batch_inv b" and "sentCount b = length (b_recipients b)"
  shows "inflight b = [] \<and> queuedRecipients b = []"
  using batch_inv_sizes [OF assms(1)] batch_inv_count [OF assms(1)] assms(2) by simp

lemma batch_inv_open:
  assumes "batch_inv b"
      and "inflight b \<noteq> [] \<or> queuedRecipients b \<noteq> []"
  shows "resolved b = None"
proof -
  have "sentCount b \<noteq> length (b_recipients b)"
    using batch_inv_done [OF assms(1)] assms(2) by blast
  then show ?thesis
    using batch_inv_resolved [OF assms(1)] by blast
qed

lemma batch_inv_newBatch: "batch_inv (newBatch recipients credentials a)"
  by (rule batch_invI) (simp_all add: newBatch_def)

lemma batch_inv_shiftAndSend:
  assumes inv: "batch_inv b"
      and q: "queuedRecipients b = recipient # rest"
  shows "batch_inv (shiftAndSend recipient rest b)"
proof (rule batch_invI)
  have fresh: "resolved b = None"
    using batch_inv_open [OF inv] q by simp
  show "mset (map d_email (results (shiftAndSend recipient rest b)))
      + mset (map r_email (inflight (shiftAndSend recipient rest b)))
      + mset (map r_email (queuedRecipients (shiftAndSend recipient rest b)))
      = mset (map r_email (b_recipients (shiftAndSend recipient rest b)))"
    using batch_inv_emails [OF inv] by (simp add: shiftAndSend_def q)
  show "mset (calls (shiftAndSend recipient rest b))
      + mset (map (pooledMail (b_credentials (shiftAndSend recipient rest b)))
                (queuedRecipients (shiftAndSend recipient rest b)))
      = mset (map (pooledMail (b_credentials (shiftAndSend recipient rest b)))
                (b_recipients (shiftAndSend recipient rest b)))"
    using batch_inv_calls [OF inv] by (simp add: shiftAndSend_def q)
  show "sentCount (shiftAndSend recipient rest b)
      = length (results (shiftAndSend recipient rest b))"
    using batch_inv_count [OF inv] by (simp add: shiftAndSend_def)
  show "resolved (shiftAndSend recipient rest b) \<noteq> None \<longrightarrow>
      resolved (shiftAndSend recipient rest b)
        = Some (results (shiftAndSend recipient rest b))
      \<and> sentCount (shiftAndSend recipient rest b)
          = length (b_recipients (shiftAndSend recipient rest b))"
    using fresh by (simp add: shiftAndSend_def)
qed

lemma batch_inv_resolve:
  assumes inv: "batch_inv b"
      and fin: "sentCount b = length (b_recipients b)"
  shows "batch_inv (resolve b)"
proof -
  have old: "resolved b = None \<or> resolved b = Some (results b)"
    using batch_inv_resolved [OF inv] by blast
  then have res: "(case resolved b of None \<Rightarrow> Some (results b) | Some rs \<Rightarrow> Some rs)
      = Some (results b)"
    by (cases "resolved b") simp_all
  have eq: "resolve b = b\<lparr>resolved := Some (results b)\<rparr>"
    by (simp add: resolve_def res)
  show ?thesis
    unfolding eq
  proof (rule batch_invI)
    show "mset (map d_email (results (b\<lparr>resolved := Some (results b)\<rparr>)))
      + mset (map r_email (inflight (b\<lparr>resolved := Some (results b)\<rparr>)))
      + mset (map r_email (queuedRecipients (b\<lparr>resolved := Some (results b)\<rparr>)))
      = mset (map r_email (b_recipients (b\<lparr>resolved := Some (results b)\<rparr>)))"
      using batch_inv_emails [OF inv] by simp
    show "mset (calls (b\<lparr>resolved := Some (results b)\<rparr>))
      + mset (map (pooledMail (b_credentials (b\<lparr>resolved := Some (results b)\<rparr>)))
          (queuedRecipients (b\<lparr>resolved := Some (results b)\<rparr>)))
      = mset (map (pooledMail (b_credentials (b\<lparr>resolved := Some (results b)\<rparr>)))
          (b_recipients (b\<lparr>resolved := Some (results b)\<rparr>)))"
      using batch_inv_calls [OF inv] by simp
    show "sentCount (b\<lparr>resolved := Some (results b)\<rparr>)
      = length (results (b\<lparr>resolved := Some (results b)\<rparr>))"
      using batch_inv_count [OF inv] by simp
    show "resolved (b\<lparr>resolved := Some (results b)\<rparr>) \<noteq> None \<longrightarrow>
      resolved (b\<lparr>resolved := Some (results b)\<rparr>)
        = Some (results (b\<lparr>resolved := Some (results b)\<rparr>))
      \<and> sentCount (b\<lparr>resolved := Some (results b)\<rparr>)
          = length (b_recipients (b\<lparr>resolved := Some (results b)\<rparr>))"
      using fin by simp
  qed
qed

lemma pooledOutcome_email: "d_email (pooledOutcome recipient out) = r_email recipient"
  by (cases out) (simp_all add: pooledOutcome_def)

lemma batch_inv_recordOutcome:
  assumes inv: "batch_inv b"
      and mem: "recipient \<in> set (inflight b)"
  shows "batch_inv (recordOutcome recipient out b)"
proof (rule batch_invI)
  from mem have "inflight b \<noteq> []" by auto
  then have fresh: "resolved b = None"
    using batch_inv_open [OF inv] by blast
  have m: "add_mset recipient (mset (remove1 recipient (inflight b))) = mset (inflight b)"
    using mem by simp
  have "image_mset r_email (add_mset recipient (mset (remove1 recipient (inflight b))))
      = image_mset r_email (mset (inflight b))"
    by (simp only: m)
  then have im: "add_mset (r_email recipient)
        (image_mset r_email (mset (remove1 recipient (inflight b))))
      = image_mset r_email (mset (inflight b))"
    by (simp only: image_mset_add_mset)
  have "mset (map d_email (results b @ [pooledOutcome recipient out]))
        + mset (map r_email (remove1 recipient (inflight b)))
        + mset (map r_email (queuedRecipients b))
      = mset (map d_email (results b))
        + add_mset (r_email recipient) (image_mset r_email (mset (remove1 recipient (inflight b))))
        + mset (map r_email (queuedRecipients b))"
    by (simp add: pooledOutcome_email)
  also have "\<dots> = mset (map d_email (results b)) + mset (map r_email (inflight b))
        + mset (map r_email (queuedRecipients b))"
    by (simp only: im mset_map)
  also have "\<dots> = mset (map r_email (b_recipients b))"
    by (rule batch_inv_emails [OF inv])
  finally show "mset (map d_email (results (recordOutcome recipient out b)))
      + mset (map r_email (inflight (recordOutcome recipient out b)))
      + mset (map r_email (queuedRecipients (recordOutcome recipient out b)))
      = mset (map r_email (b_recipients (recordOutcome recipient out b)))"
    by (simp add: recordOutcome_def)
  show "mset (calls (recordOutcome recipient out b))
      + mset (map (pooledMail (b_credentials (recordOutcome recipient out b)))
           (queuedRecipients (recordOutcome recipient out b)))
      = mset (map (pooledMail (b_credentials (recordOutcome recipient out b)))
           (b_recipients (recordOutcome recipient out b)))"
    using batch_inv_calls [OF inv] by (simp add: recordOutcome_def)
  show "sentCount (recordOutcome recipient out b)
      = length (results (recordOutcome recipient out b))"
    using batch_inv_count [OF inv] by (simp add: recordOutcome_def)
  show "resolved (recordOutcome recipient out b) \<noteq> None \<longrightarrow>
      resolved (recordOutcome recipient out b) = Some (results (recordOutcome recipient out b))
      \<and> sentCount (recordOutcome recipient out b)
          = length (b_recipients (recordOutcome recipient out b))"
    using fresh by (simp add: recordOutcome_def)
qed

lemma batches_closeTransporter: "batches (closeTransporter a m) = batches m"
  by (simp add: closeTransporter_def)

lemma batches_shutdownHandler: "batches (shutdownHandler m) = batches m"
  by (cases "pooledEmailTransporter m") (simp_all add: shutdownHandler_def batches_closeTransporter)

lemma batches_setBatch: "batches (setBatch i b m) = (batches m)[i := b]"
  by (simp add: setBatch_def)

lemma batches_inv_setBatch:
  assumes "\<forall>x \<in> set (batches m). batch_inv x" and "batch_inv b"
  shows "\<forall>x \<in> set (batches (setBatch i b m)). batch_inv x"
proof
  fix x assume "x \<in> set (batches (setBatch i b m))"
  then have "x \<in> set ((batches m)[i := b])"
    by (simp only: batches_setBatch)
  moreover have "set ((batches m)[i := b]) \<subseteq> insert b (set (batches m))"
    by (rule set_update_subset_insert)
  ultimately have "x = b \<or> x \<in> set (batches m)" by blast
  with assms show "batch_inv x" by blast
qed

lemma batches_inv_completionCheck:
  assumes all: "\<forall>x \<in> set (batches m). batch_inv x" and inv: "batch_inv b"
  shows "\<forall>x \<in> set (batches (completionCheck i b m)). batch_inv x"
proof (cases "queuedRecipients b = [] \<and> sentCount b = length (b_recipients b)")
  case True
  have eq: "completionCheck i b m
      = setBatch i (resolve b) (closeTransporter (pooledTransporter b) m)"
    unfolding completionCheck_def using True by (rule if_P)
  have "batch_inv (resolve b)"
    using inv True by (simp add: batch_inv_resolve)
  moreover have "\<forall>x \<in> set (batches (closeTransporter (pooledTransporter b) m)). batch_inv x"
    using all by (simp only: batches_closeTransporter)
  ultimately show ?thesis
    unfolding eq by (rule batches_inv_setBatch [rotated])
next
  case False
  have eq: "completionCheck i b m = setBatch i b m"
    unfolding completionCheck_def using False by (rule if_not_P)
  show ?thesis
    unfolding eq using all inv by (rule batches_inv_setBatch)
qed

lemma batches_inv_loopHead:
  assumes all: "\<forall>x \<in> set (batches m). batch_inv x" and inv: "batch_inv b"
  shows "\<forall>x \<in> set (batches (loopHead i isIdle b m)). batch_inv x"
proof (cases "queuedRecipients b")
  case Nil
  then have "loopHead i isIdle b m = completionCheck i b m"
    by (simp add: loopHead_def)
  then show ?thesis
    using batches_inv_completionCheck [OF all inv] by simp
next
  case (Cons recipient rest)
  show ?thesis
  proof (cases isIdle)
    case True
    have eq: "loopHead i isIdle b m = setBatch i (shiftAndSend recipient rest b) m"
      using Cons True by (simp add: loopHead_def)
    have "batch_inv (shiftAndSend recipient rest b)"
      using inv Cons by (rule batch_inv_shiftAndSend)
    with all show ?thesis
      unfolding eq by (rule batches_inv_setBatch)
  next
    case False
    have "loopHead i isIdle b m = completionCheck i b m"
      using Cons False by (simp add: loopHead_def)
    then show ?thesis
      using batches_inv_completionCheck [OF all inv] by simp
  qed
qed

lemma batches_createTransport:
  "batches (snd (createTransport config credentials m)) = batches m"
  by (simp add: createTransport_def)

lemma batches_createPooledEmailTransporter:
  assumes "createPooledEmailTransporter credentials m = Inr (a, m')"
  shows "batches m' = batches m"
proof (cases "pooledEmailTransporter m")
  case (Some ad)
  with assms have "m' = m"
    by (simp add: createPooledEmailTransporter_def)
  then show ?thesis by simp
next
  case None
  have "createPooledEmailTransporter credentials m
          = Inr (createTransport (Host ''smtp.gmail.com'' 587 False) credentials m)
        \<or> createPooledEmailTransporter credentials m = Inl (Error ''Unsupported email domain'')"
    using None by (simp add: createPooledEmailTransporter_def Let_def)
  with assms have "(a, m') = createTransport (Host ''smtp.gmail.com'' 587 False) credentials m"
    by auto
  then have "snd (a, m') = snd (createTransport (Host ''smtp.gmail.com'' 587 False) credentials m)"
    by (rule arg_cong)
  then show ?thesis
    by (simp add: batches_createTransport)
qed

lemma batches_sendBulkCertificatesPooled:
  assumes "sendBulkCertificatesPooled recipients credentials m = Inr m'"
  shows "\<exists>a. batches m' = batches m @ [newBatch recipients credentials a]"
proof (cases "createPooledEmailTransporter credentials m")
  case (Inl e)
  with assms show ?thesis by (simp add: sendBulkCertificatesPooled_def)
next
  case (Inr r)
  obtain a m1 where r: "r = (a, m1)" by (cases r)
  have "batches m1 = batches m"
    using Inr r by (simp add: batches_createPooledEmailTransporter)
  moreover have "m' = m1\<lparr>batches := batches m1 @ [newBatch recipients credentials a]\<rparr>"
    using assms Inr r by (simp add: sendBulkCertificatesPooled_def)
  ultimately have "batches m' = batches m @ [newBatch recipients credentials a]" by simp
  then show ?thesis by (rule exI)
qed

lemma batches_inv_step:
  assumes st: "step a m = Some m'" and all: "\<forall>x \<in> set (batches m). batch_inv x"
  shows "\<forall>x \<in> set (batches m'). batch_inv x"
proof (cases a)
  case (Call recipients credentials)
  show ?thesis
  proof (cases "sendBulkCertificatesPooled recipients credentials m")
    case (Inl e)
    with st Call have "m' = m" by simp
    with all show ?thesis by simp
  next
    case (Inr m1)
    with st Call have "m' = m1" by simp
    then obtain ad where "batches m' = batches m @ [newBatch recipients credentials ad]"
      using batches_sendBulkCertificatesPooled [OF Inr] by blast
    then show ?thesis
      using all batch_inv_newBatch by simp
  qed
next
  case (Idle i isIdle)
  with st have i: "i < length (batches m)" and m': "m' = loopHead i isIdle (batches m ! i) m"
    by (simp_all split: if_splits)
  have "batch_inv (batches m ! i)"
    using all i by simp
  with all show ?thesis
    unfolding m' by (rule batches_inv_loopHead)
next
  case (Settled i recipient out isIdle)
  with st have i: "i < length (batches m)"
    and mem: "recipient \<in> set (inflight (batches m ! i))"
    and m': "m' = loopHead i isIdle (recordOutcome recipient out (batches m ! i)) m"
    by (simp_all split: if_splits)
  have "batch_inv (batches m ! i)"
    using all i by simp
  then have "batch_inv (recordOutcome recipient out (batches m ! i))"
    using mem by (rule batch_inv_recordOutcome)
  with all show ?thesis
    unfolding m' by (rule batches_inv_loopHead)
next
  case Signal
  with st have "m' = shutdownHandler m" by simp
  with all show ?thesis by (simp add: batches_shutdownHandler)
qed

lemma batches_inv_execute:
  "execute as m = Some m' \<Longrightarrow> \<forall>x \<in> set (batches m). batch_inv x
     \<Longrightarrow> \<forall>x \<in> set (batches m'). batch_inv x"
proof (induction as arbitrary: m)
  case Nil
  then show ?case by simp
next
  case (Cons a as)
  from Cons.prems(1) obtain m1 where st: "step a m = Some m1" and ex: "execute as m1 = Some m'"
    by (cases "step a m") simp_all
  have "\<forall>x \<in> set (batches m1). batch_inv x"
    using st Cons.prems(2) by (rule batches_inv_step)
  with ex show ?case by (rule Cons.IH)
qed

text \<open>
  What holds of every batch, whatever the other batches of the process do: no recipient
  has more than one result and no recipient's message has been handed to \<open>sendMail\<close> more
  than once; and once the promise of the batch is resolved, it holds the results as they
  stand, there is exactly one result for each recipient, each recipient's message was
  handed to \<open>sendMail\<close> exactly once, and nothing is queued or awaited.
\<close>

lemma pooled_batch_results:
  assumes ex: "execute as moduleInit = Some m" and b: "b \<in> set (batches m)"
  shows "mset (map d_email (results b)) \<subseteq># mset (map r_email (b_recipients b))
     \<and> mset (calls b) \<subseteq># mset (map (pooledMail (b_credentials b)) (b_recipients b))
     \<and> (resolved b \<noteq> None \<longrightarrow>
          resolved b = Some (results b)
          \<and> length (results b) = length (b_recipients b)
          \<and> mset (map d_email (results b)) = mset (map r_email (b_recipients b))
          \<and> mset (calls b) = mset (map (pooledMail (b_credentials b)) (b_recipients b))
          \<and> queuedRecipients b = [] \<and> inflight b = [])"
proof -
  have "\<forall>x \<in> set (batches moduleInit). batch_inv x"
    by (simp add: moduleInit_def)
  with ex have "\<forall>x \<in> set (batches m). batch_inv x"
    by (rule batches_inv_execute)
  with b have inv: "batch_inv b" by blast
  have "mset (map d_email (results b))
      \<subseteq># mset (map d_email (results b))
          + (mset (map r_email (inflight b)) + mset (map r_email (queuedRecipients b)))"
    by (rule mset_subset_eq_add_left)
  then have sub1: "mset (map d_email (results b)) \<subseteq># mset (map r_email (b_recipients b))"
    using batch_inv_emails [OF inv] by (simp only: add.assoc)
  have "mset (calls b)
      \<subseteq># mset (calls b) + mset (map (pooledMail (b_credentials b)) (queuedRecipients b))"
    by (rule mset_subset_eq_add_left)
  then have sub2: "mset (calls b)
      \<subseteq># mset (map (pooledMail (b_credentials b)) (b_recipients b))"
    using batch_inv_calls [OF inv] by (simp only:)
  have fin: "resolved b = Some (results b)
          \<and> length (results b) = length (b_recipients b)
          \<and> mset (map d_email (results b)) = mset (map r_email (b_recipients b))
          \<and> mset (calls b) = mset (map (pooledMail (b_credentials b)) (b_recipients b))
          \<and> queuedRecipients b = [] \<and> inflight b = []"
    if res: "resolved b \<noteq> None"
  proof -
    have r: "resolved b = Some (results b) \<and> sentCount b = length (b_recipients b)"
      using batch_inv_resolved [OF inv res] .
    then have e: "inflight b = [] \<and> queuedRecipients b = []"
      using batch_inv_done [OF inv] by blast
    have len: "length (results b) = length (b_recipients b)"
      using r batch_inv_count [OF inv] by simp
    have em: "mset (map d_email (results b)) = mset (map r_email (b_recipients b))"
      using batch_inv_emails [OF inv] e by simp
    have ca: "mset (calls b) = mset (map (pooledMail (b_credentials b)) (b_recipients b))"
      using batch_inv_calls [OF inv] e by simp
    show ?thesis
      using r e len em ca by blast
  qed
  show ?thesis
    using sub1 sub2 fin by blast
qed

text \<open>
  The handler of \<open>SIGTERM\<close> and \<open>SIGINT\<close> sets the variable back to \<open>null\<close> when it has
  closed the transporter, so the batch started after it works on a new, open one.
\<close>

lemma transporter_after_signal:
  "\<exists>m. execute [Call [sampleRecipient ''a@example.org''] sampleCredentials,
                  Idle 0 True,
                  Settled 0 (sampleRecipient ''a@example.org'') (Inr ''<1@smtp>'') True,
                  Signal,
                  Call [sampleRecipient ''b@example.org''] sampleCredentials] moduleInit = Some m
       \<and> pooledEmailTransporter m = Some 1
       \<and> map closeCalls (transporters m) = [2, 0]
       \<and> map pooledTransporter (batches m) = [0, 1]"
  by (simp add: moduleInit_def sendBulkCertificatesPooled_def createPooledEmailTransporter_def
      createTransport_def sampleCredentials_def endsWith_def Let_def newBatch_def loopHead_def
      setBatch_def shiftAndSend_def recordOutcome_def completionCheck_def resolve_def
      closeTransporter_def pooledOutcome_def sampleRecipient_def shutdownHandler_def)

text \<open>
  Claim C4, where the code departs from it. The listener of a batch closes the
  transporter when the batch is done, but the transporter is the one the module holds
  for all batches, the variable is not set back to \<open>null\<close>, and the listener stays
  registered. So the transporter of a batch is closed while the batch has no result:

  \<^item> A batch of one recipient runs to its end, then a second batch is started
    (\<open>twoBatches\<close>). The second batch works on the transporter of the first, on which
    \<open>close()\<close> has been called once, while its recipient is still queued, it has no result
    and its promise is not resolved.
  \<^item> When the listener of the first batch is run for one more \<open>idle\<close> event, it calls
    \<open>close()\<close> a second time, and the second batch still has no result.
  \<^item> Two batches run at the same time (\<open>overlappingBatches\<close>). When the send of the first
    is fulfilled, its listener closes the transporter both work on, while the send of the
    second is awaited and the second has no result.
\<close>

theorem pooled_transporter_closed_early:
  "(\<exists>m. execute twoBatches moduleInit = Some m
        \<and> pooledEmailTransporter m = Some 0
        \<and> map closeCalls (transporters m) = [1]
        \<and> map pooledTransporter (batches m) = [0, 0]
        \<and> map b_recipients (batches m)
            = [[sampleRecipient ''a@example.org''], [sampleRecipient ''b@example.org'']]
        \<and> map queuedRecipients (batches m) = [[], [sampleRecipient ''b@example.org'']]
        \<and> map inflight (batches m) = [[], []]
        \<and> map results (batches m)
            = [[\<lparr>d_email = ''a@example.org'', d_success = True, d_messageId = Some ''<1@smtp>'',
                 d_error = None, d_provider = ''gmail-pooled''\<rparr>], []]
        \<and> map resolved (batches m)
            = [Some [\<lparr>d_email = ''a@example.org'', d_success = True,
                      d_messageId = Some ''<1@smtp>'', d_error = None,
                      d_provider = ''gmail-pooled''\<rparr>], None])
   \<and> (\<exists>m. execute (twoBatches @ [Idle 0 True]) moduleInit = Some m
        \<and> map closeCalls (transporters m) = [2]
        \<and> map results (batches m)
            = [[\<lparr>d_email = ''a@example.org'', d_success = True, d_messageId = Some ''<1@smtp>'',
                 d_error = None, d_provider = ''gmail-pooled''\<rparr>], []]
        \<and> map resolved (batches m)
            = [Some [\<lparr>d_email = ''a@example.org'', d_success = True,
                      d_messageId = Some ''<1@smtp>'', d_error = None,
                      d_provider = ''gmail-pooled''\<rparr>], None])
   \<and> (\<exists>m. execute overlappingBatches moduleInit = Some m
        \<and> pooledEmailTransporter m = Some 0
        \<and> map closeCalls (transporters m) = [1]
        \<and> map pooledTransporter (batches m) = [0, 0]
        \<and> map queuedRecipients (batches m) = [[], []]
        \<and> map inflight (batches m) = [[], [sampleRecipient ''b@example.org'']]
        \<and> map results (batches m)
            = [[\<lparr>d_email = ''a@example.org'', d_success = True, d_messageId = Some ''<1@smtp>'',
                 d_error = None, d_provider = ''gmail-pooled''\<rparr>], []]
        \<and> map resolved (batches m)
            = [Some [\<lparr>d_email = ''a@example.org'', d_success = True,
                      d_messageId = Some ''<1@smtp>'', d_error = None,
                      d_provider = ''gmail-pooled''\<rparr>], None])"
  by (simp add: twoBatches_def overlappingBatches_def moduleInit_def
      sendBulkCertificatesPooled_def createPooledEmailTransporter_def createTransport_def
      sampleCredentials_def endsWith_def Let_def newBatch_def loopHead_def setBatch_def
      shiftAndSend_def recordOutcome_def completionCheck_def resolve_def closeTransporter_def
      pooledOutcome_def sampleRecipient_def)

end
